theory Spec2Isabelle
  imports Main "HOL-Library.Sublist"
begin

section \<open>Python values used by maildirexport.py\<close>

text \<open>
  A Python \<open>str\<close> is a sequence of Unicode code points and \<open>len\<close> counts code points.
  The ellipsis appended by the exporter is U+2026, which is no 8-bit character, so a
  \<open>str\<close> is modelled as the list of its code points; \<open>ord\<close> and \<open>chr\<close> are the
  identity on this representation. A \<open>bytes\<close> object is the list of its byte values.
\<close>

type_synonym pystr = "nat list"

type_synonym pybytes = "nat list"

definition str :: "string \<Rightarrow> pystr" where
  "str s = map of_char s"

section \<open>MaildirExporter: subject sanitization\<close>

text \<open>
  \<^verbatim>\<open>REPLACECHARS = [ '*', '.',  '"',  '/', '\\',  '[',  ']', ':', ';', '|' ]\<close>,
  each one-character string given by its code point, in the order of the source.
\<close>

definition REPLACECHARS :: "nat list" where
  "REPLACECHARS = [42, 46, 34, 47, 92, 91, 93, 58, 59, 124]"

definition MAXSUBJLEN :: nat where
  "MAXSUBJLEN = 100"

text \<open>\<^verbatim>\<open>self.removeChars = [ chr(i) for i in range(0, 32) ]\<close>\<close>

definition removeChars :: "nat list" where
  "removeChars = [0..<32]"

text \<open>The one-character string appended after truncation: U+2026, horizontal ellipsis.\<close>

definition ELLIPSIS :: pystr where
  "ELLIPSIS = [8230]"

text \<open>
  A dict comprehension \<^verbatim>\<open>{ord(x): v for x in xs}\<close>: the keys are stored one after the
  other, a later key overwriting an earlier equal one.
\<close>

definition dict_comp :: "pystr \<Rightarrow> nat list \<Rightarrow> (nat \<rightharpoonup> pystr)" where
  "dict_comp v xs = fold (\<lambda>x m. m(x \<mapsto> v)) xs Map.empty"

text \<open>
  \<^verbatim>\<open>str.translate(table)\<close> with a dict whose values are strings: a code point that is a
  key is replaced by the string stored for it (the empty string deletes it), any other
  code point is kept.
\<close>

definition translate :: "(nat \<rightharpoonup> pystr) \<Rightarrow> pystr \<Rightarrow> pystr" where
  "translate table s = concat (map (\<lambda>c. case table c of None \<Rightarrow> [c] | Some r \<Rightarrow> r) s)"

text \<open>
  Lines 124 to 127 of \<^verbatim>\<open>recursiveExport\<close>:
  \<^verbatim>\<open>
  safeSubject = subject.translate({ord(x): '_' for x in self.REPLACECHARS})
  safeSubject = safeSubject.translate({ord(x): '' for x in self.removeChars})
  if len(safeSubject) > self.MAXSUBJLEN:
      safeSubject = safeSubject[:self.MAXSUBJLEN] + '...'   (the ellipsis character)
  \<close>
\<close>

definition sanitize :: "pystr \<Rightarrow> pystr" where
  "sanitize subject =
     (let safeSubject = translate (dict_comp (str ''_'') REPLACECHARS) subject;
          safeSubject = translate (dict_comp (str '''') removeChars) safeSubject
      in if length safeSubject > MAXSUBJLEN
         then take MAXSUBJLEN safeSubject @ ELLIPSIS
         else safeSubject)"

text \<open>
  The sanitization as the specification words it: replace each of the ten characters by
  an underscore, then drop every control character, then truncate to 100 characters and
  append the ellipsis when the string is longer than that.
\<close>

definition is_replaced :: "nat \<Rightarrow> bool" where
  "is_replaced c = (c \<in> set REPLACECHARS)"

definition is_control :: "nat \<Rightarrow> bool" where
  "is_control c = (c < 32)"

definition sanitize_spec :: "pystr \<Rightarrow> pystr" where
  "sanitize_spec subject =
     (let replaced = map (\<lambda>c. if is_replaced c then 95 else c) subject;
          stripped = filter (\<lambda>c. \<not> is_control c) replaced
      in if length stripped > 100 then take 100 stripped @ [8230] else stripped)"

section \<open>Exceptions\<close>

text \<open>
  Every exception the program or one of the library calls it makes can raise is a value;
  a computation that may raise returns \<open>error + 'a\<close>, with \<open>Inl\<close> for the exception.
\<close>

datatype error =
    NotImplementedError
  | IndexError
  | HeaderParseError
  | UnicodeDecodeError
  | OverflowError
  | AssertionError
  | RecursionError
  | FileExistsError
  | FileNotFoundError
  | NotADirectoryError
  | IsADirectoryError
  | NoSuchMailboxError
  | OSError
  | LookupError
  | ValueError
  | AttributeError

text \<open>
  \<^verbatim>\<open>except LookupError\<close> catches \<open>LookupError\<close> and its subclasses, of which
  \<open>IndexError\<close> is one; it catches neither \<open>ValueError\<close> nor any other exception.
\<close>

definition except_LookupError :: "error \<Rightarrow> bool" where
  "except_LookupError e = (e = LookupError \<or> e = IndexError)"

section \<open>The filesystem\<close>

text \<open>
  A path is the list of its components; a filesystem is an association list from paths
  to entries, read with \<open>map_of\<close>. \<open>os.listdir\<close> returns the children in the order
  of the association list, which stands for the arbitrary order of the operating system.
  Symbolic links are not modelled.
\<close>

type_synonym path = "pystr list"

datatype entry = RegularFile pybytes | Directory

type_synonym filesystem = "(path \<times> entry) list"

definition os_path_isdir :: "filesystem \<Rightarrow> path \<Rightarrow> bool" where
  "os_path_isdir fs p = (map_of fs p = Some Directory)"

definition os_path_exists :: "filesystem \<Rightarrow> path \<Rightarrow> bool" where
  "os_path_exists fs p = (map_of fs p \<noteq> None)"

text \<open>\<open>os.path.basename\<close>: the last component; the empty string for the root.\<close>

definition os_path_basename :: "path \<Rightarrow> pystr" where
  "os_path_basename p = (if p = [] then [] else last p)"

text \<open>
  \<open>os.path.join\<close> of a directory and one name. Joining the empty name gives the
  directory with a trailing separator, which is the directory itself.
\<close>

definition os_path_join :: "path \<Rightarrow> pystr \<Rightarrow> path" where
  "os_path_join p name = (if name = [] then p else p @ [name])"

definition os_listdir :: "filesystem \<Rightarrow> path \<Rightarrow> error + pystr list" where
  "os_listdir fs p =
     (case map_of fs p of
        None \<Rightarrow> Inl FileNotFoundError
      | Some (RegularFile _) \<Rightarrow> Inl NotADirectoryError
      | Some Directory \<Rightarrow>
          Inr (map (\<lambda>(q, e). last q) (filter (\<lambda>(q, e). q \<noteq> [] \<and> butlast q = p) fs)))"

definition os_mkdir :: "filesystem \<Rightarrow> path \<Rightarrow> error + filesystem" where
  "os_mkdir fs p =
     (if os_path_exists fs p then Inl FileExistsError
      else if p = [] \<or> \<not> os_path_exists fs (butlast p) then Inl FileNotFoundError
      else if \<not> os_path_isdir fs (butlast p) then Inl NotADirectoryError
      else Inr ((p, Directory) # fs))"

text \<open>\<open>shutil.rmtree\<close> removes a directory and everything beneath it.\<close>

definition shutil_rmtree :: "filesystem \<Rightarrow> path \<Rightarrow> error + filesystem" where
  "shutil_rmtree fs p =
     (case map_of fs p of
        None \<Rightarrow> Inl FileNotFoundError
      | Some (RegularFile _) \<Rightarrow> Inl NotADirectoryError
      | Some Directory \<Rightarrow> Inr (filter (\<lambda>(q, e). \<not> prefix p q) fs))"

text \<open>
  \<^verbatim>\<open>with open(path, 'wb') as f: f.write(data)\<close> creates the file or replaces its content.
\<close>

definition write_file :: "filesystem \<Rightarrow> path \<Rightarrow> pybytes \<Rightarrow> error + filesystem" where
  "write_file fs p content =
     (if os_path_isdir fs p then Inl IsADirectoryError
      else if p = [] \<or> \<not> os_path_exists fs (butlast p) then Inl FileNotFoundError
      else if \<not> os_path_isdir fs (butlast p) then Inl NotADirectoryError
      else Inr ((p, RegularFile content) # filter (\<lambda>(q, e). q \<noteq> p) fs))"

section \<open>Messages and the library calls of the exporter\<close>

text \<open>
  What \<^verbatim>\<open>message['Date']\<close> returns for a header that is present: a \<open>str\<close> or, when
  the header holds raw 8-bit bytes, an \<open>email.header.Header\<close> object, given here by
  those bytes.
\<close>

datatype header_value = HeaderStr pystr | HeaderObject pybytes

text \<open>
  A message as the exporter reads it: \<^verbatim>\<open>message['Subject']\<close> and \<^verbatim>\<open>message['Date']\<close>
  (\<open>None\<close> when the header is absent) and \<^verbatim>\<open>bytes(message)\<close>. The Subject goes to
  \<open>decode_header\<close>, which takes a \<open>Header\<close> object as it takes a string; the Date
  goes to \<open>parsedate\<close>, which does not, so the Date keeps the two apart.
\<close>

record message =
  subject_header :: "pystr option"
  date_header :: "header_value option"
  as_bytes :: pybytes

text \<open>
  One pair of the list \<open>email.header.decode_header\<close> returns: the decoded value, which
  is a \<open>str\<close>, a \<open>bytes\<close> or (for the branch the source rejects) anything else, and
  the charset, \<open>None\<close> or a string.
\<close>

datatype hdrvalue = StrValue pystr | BytesValue pybytes | OtherValue

type_synonym fragment = "hdrvalue \<times> pystr option"

text \<open>The nine-tuple of \<open>email.utils.parsedate\<close> and \<open>time.mktime\<close>.\<close>

type_synonym timetuple = "int \<times> int \<times> int \<times> int \<times> int \<times> int \<times> int \<times> int \<times> int"

text \<open>
  A \<open>datetime\<close> with the fields the file name shows. \<open>time.mktime\<close> returns a whole
  number of seconds, so the microsecond of every \<open>datetime\<close> built here is 0 and the
  field is left out.
\<close>

record datetime =
  year :: nat
  month :: nat
  day :: nat
  hour :: nat
  minute :: nat
  second :: nat

text \<open>
  The functions of the Python library that the source calls and that are not part of
  this repository are parameters of the model:
  \<^item> \<open>decode_header\<close>: \<open>email.header.decode_header\<close>;
  \<^item> \<open>codecs_lookup\<close>: the exception that \<open>codecs.lookup\<close> raises, \<open>None\<close> when
    it returns a codec (it raises \<open>LookupError\<close> for a name it does not know and
    \<open>ValueError\<close> for a name that holds a NUL character);
  \<^item> \<open>bytes_decode\<close>: \<open>bytes.decode(charset)\<close>, strict, which may raise;
  \<^item> \<open>bytes_decode_replace\<close>: \<open>bytes.decode(errors='replace')\<close> with the default codec,
    which replaces what it cannot decode and returns;
  \<^item> \<open>parsedate\<close>: \<open>email.utils.parsedate\<close> on a non-empty string, which returns
    the nine-tuple or, when it cannot parse the string, \<open>None\<close>;
  \<^item> \<open>mktime\<close>: \<open>time.mktime\<close>, in whole seconds, which raises \<open>OverflowError\<close>
    for a tuple out of its range;
  \<^item> \<open>fromtimestamp\<close>: \<open>datetime.datetime.fromtimestamp\<close>, which converts to the local
    time zone and raises \<open>ValueError\<close> or \<open>OverflowError\<close> for a time outside the
    years 1 to 9999;
  \<^item> \<open>maildir_messages\<close>: the messages that iterating \<open>mailbox.Maildir(path)\<close> yields;
  \<^item> \<open>list_folders\<close>: \<open>Maildir.list_folders\<close>.
\<close>

record pylib =
  decode_header :: "pystr \<Rightarrow> error + fragment list"
  codecs_lookup :: "pystr \<Rightarrow> error option"
  bytes_decode :: "pystr \<Rightarrow> pybytes \<Rightarrow> error + pystr"
  bytes_decode_replace :: "pybytes \<Rightarrow> pystr"
  parsedate :: "pystr \<Rightarrow> timetuple option"
  mktime :: "timetuple \<Rightarrow> error + int"
  fromtimestamp :: "int \<Rightarrow> error + datetime"
  maildir_messages :: "filesystem \<Rightarrow> path \<Rightarrow> error + message list"
  list_folders :: "filesystem \<Rightarrow> path \<Rightarrow> error + pystr list"

section \<open>MaildirExporter: subject derivation\<close>

text \<open>\<open>s.startswith(p)\<close>\<close>

definition startswith :: "pystr \<Rightarrow> pystr \<Rightarrow> bool" where
  "startswith s p = (take (length p) s = p)"

text \<open>
  \<^verbatim>\<open>bytes.decode('ascii', errors='replace')\<close>: every byte that is not ASCII becomes
  U+FFFD.
\<close>

definition decode_ascii_replace :: "pybytes \<Rightarrow> pystr" where
  "decode_ascii_replace b = map (\<lambda>x. if x < 128 then x else 65533) b"

text \<open>The truth value of \<^verbatim>\<open>message['Subject']\<close>: \<open>None\<close> and the empty string are false.\<close>

definition header_truthy :: "pystr option \<Rightarrow> bool" where
  "header_truthy h = (case h of None \<Rightarrow> False | Some s \<Rightarrow> s \<noteq> [])"

text \<open>
  Lines 103 to 112, the branch for a \<open>bytes\<close> value with charset \<open>subject[1]\<close>:
  \<^verbatim>\<open>
  if not subject[1] or subject[1].startswith('unknown'):
      subject = subject[0].decode('ascii', errors='replace')
  else:
      try:
          codecs.lookup(subject[1])
      except LookupError:
          subject = subject[0].decode(errors='replace')
      else:
          subject = subject[0].decode(subject[1])
  \<close>
\<close>

definition decodeBytes :: "pylib \<Rightarrow> pybytes \<Rightarrow> pystr option \<Rightarrow> error + pystr" where
  "decodeBytes lib b charset =
     (if \<not> header_truthy charset \<or> startswith (the charset) (str ''unknown'')
      then Inr (decode_ascii_replace b)
      else (case codecs_lookup lib (the charset) of
              Some e \<Rightarrow>
                if except_LookupError e then Inr (bytes_decode_replace lib b) else Inl e
            | None \<Rightarrow> bytes_decode lib (the charset) b))"

text \<open>Lines 101 to 114: the three branches on the type of \<open>subject[0]\<close>.\<close>

definition decodeFragment :: "pylib \<Rightarrow> fragment \<Rightarrow> error + pystr" where
  "decodeFragment lib subject =
     (case fst subject of
        StrValue s \<Rightarrow> Inr s
      | BytesValue b \<Rightarrow> decodeBytes lib b (snd subject)
      | OtherValue \<Rightarrow> Inl NotImplementedError)"

text \<open>\<^verbatim>\<open>email.header.decode_header(message['Subject'])[0]\<close> and what follows.\<close>

definition firstFragment :: "pylib \<Rightarrow> fragment list \<Rightarrow> error + pystr" where
  "firstFragment lib fragments =
     (case fragments of
        [] \<Rightarrow> Inl IndexError
      | subject # _ \<Rightarrow> decodeFragment lib subject)"

text \<open>Lines 99 to 116.\<close>

definition deriveSubject :: "pylib \<Rightarrow> pystr option \<Rightarrow> error + pystr" where
  "deriveSubject lib h =
     (if header_truthy h
      then (case decode_header lib (the h) of
              Inl e \<Rightarrow> Inl e
            | Inr fragments \<Rightarrow> firstFragment lib fragments)
      else Inr (str ''(no subject)''))"

section \<open>MaildirExporter: date derivation\<close>

text \<open>
  \<^verbatim>\<open>email.utils.parsedate(message['Date'])\<close>: the library returns \<open>None\<close> for \<open>None\<close>
  and for the empty string before it parses anything; a \<open>Header\<close> object is true and
  has no \<open>split\<close>, so the library raises \<open>AttributeError\<close> on it.
\<close>

definition email_utils_parsedate ::
  "pylib \<Rightarrow> header_value option \<Rightarrow> error + timetuple option" where
  "email_utils_parsedate lib d =
     (case d of
        None \<Rightarrow> Inr None
      | Some (HeaderStr s) \<Rightarrow> (if s = [] then Inr None else Inr (parsedate lib s))
      | Some (HeaderObject b) \<Rightarrow> Inl AttributeError)"

text \<open>
  Lines 118 to 122; a nine-tuple is true, \<open>None\<close> is false:
  \<^verbatim>\<open>
  date = email.utils.parsedate(message['Date'])
  if date:
      date = datetime.datetime.fromtimestamp(time.mktime(date))
  else:
      date = datetime.datetime.fromtimestamp(0)
  \<close>
\<close>

definition deriveDate :: "pylib \<Rightarrow> header_value option \<Rightarrow> error + datetime" where
  "deriveDate lib d =
     (case email_utils_parsedate lib d of
        Inl e \<Rightarrow> Inl e
      | Inr (Some date) \<Rightarrow>
          (case mktime lib date of
             Inl e \<Rightarrow> Inl e
           | Inr t \<Rightarrow> fromtimestamp lib t)
      | Inr None \<Rightarrow> fromtimestamp lib 0)"

section \<open>MaildirExporter: the file name\<close>

fun decimal :: "nat \<Rightarrow> pystr" where
  "decimal n = (if n < 10 then [48 + n] else decimal (n div 10) @ [48 + n mod 10])"

declare decimal.simps [simp del]

definition zfill :: "nat \<Rightarrow> pystr \<Rightarrow> pystr" where
  "zfill w s = replicate (w - length s) 48 @ s"

text \<open>
  \<^verbatim>\<open>date.strftime(r'%Y-%m-%d %H:%M:%S')\<close>: the year in decimal as the C library
  gives it, without padding (999 for the year 999), the other fields padded with zeros
  to two digits.
\<close>

definition strftime :: "datetime \<Rightarrow> pystr" where
  "strftime date =
     decimal (year date) @ str ''-'' @ zfill 2 (decimal (month date)) @ str ''-''
     @ zfill 2 (decimal (day date)) @ str '' '' @ zfill 2 (decimal (hour date)) @ str '':''
     @ zfill 2 (decimal (minute date)) @ str '':'' @ zfill 2 (decimal (second date))"

text \<open>
  Line 129: \<^verbatim>\<open>fileName = "{} {}.eml".format(date.strftime(...), safeSubject)\<close>, with the
  sanitization of lines 124 to 127 applied to the subject.
\<close>

definition emlFileName :: "datetime \<Rightarrow> pystr \<Rightarrow> pystr" where
  "emlFileName date subject = strftime date @ str '' '' @ sanitize subject @ str ''.eml''"

text \<open>The name of the file a message is exported to: lines 99 to 129.\<close>

definition messageFileName :: "pylib \<Rightarrow> message \<Rightarrow> error + pystr" where
  "messageFileName lib m =
     (case deriveSubject lib (subject_header m) of
        Inl e \<Rightarrow> Inl e
      | Inr subject \<Rightarrow>
          (case deriveDate lib (date_header m) of
             Inl e \<Rightarrow> Inl e
           | Inr date \<Rightarrow> Inr (emlFileName date subject)))"

section \<open>MaildirExporter: the export\<close>

text \<open>One turn of the loop over the messages: lines 99 to 132.\<close>

definition exportMessage :: "pylib \<Rightarrow> path \<Rightarrow> message \<Rightarrow> filesystem \<Rightarrow> error + filesystem" where
  "exportMessage lib dstPath m fs =
     (case messageFileName lib m of
        Inl e \<Rightarrow> Inl e
      | Inr name \<Rightarrow> write_file fs (os_path_join dstPath name) (as_bytes m))"

fun exportMessages :: "pylib \<Rightarrow> path \<Rightarrow> message list \<Rightarrow> filesystem \<Rightarrow> error + filesystem" where
  "exportMessages lib dstPath [] fs = Inr fs"
| "exportMessages lib dstPath (m # ms) fs =
     (case exportMessage lib dstPath m fs of
        Inl e \<Rightarrow> Inl e
      | Inr fs' \<Rightarrow> exportMessages lib dstPath ms fs')"

text \<open>
  The loop over the folders, lines 134 to 138; \<open>recurse\<close> is the recursive call of
  \<open>recursiveExport\<close>.
\<close>

fun exportFolders ::
  "(path \<Rightarrow> path \<Rightarrow> filesystem \<Rightarrow> error + filesystem) \<Rightarrow> path \<Rightarrow> path \<Rightarrow> pystr list
   \<Rightarrow> filesystem \<Rightarrow> error + filesystem" where
  "exportFolders recurse srcPath dstPath [] fs = Inr fs"
| "exportFolders recurse srcPath dstPath (folder # folders) fs =
     (let subSrcPath = os_path_join srcPath (str ''.'' @ folder);
          subDstPath = os_path_join dstPath folder
      in case os_mkdir fs subDstPath of
           Inl e \<Rightarrow> Inl e
         | Inr fs1 \<Rightarrow>
             (case recurse subSrcPath subDstPath fs1 of
                Inl e \<Rightarrow> Inl e
              | Inr fs2 \<Rightarrow> exportFolders recurse srcPath dstPath folders fs2))"

text \<open>
  Python bounds the depth of the call stack and raises \<open>RecursionError\<close> beyond it; the
  first argument of every recursive function is the number of frames still available.
\<close>

primrec recursiveExport :: "nat \<Rightarrow> pylib \<Rightarrow> path \<Rightarrow> path \<Rightarrow> filesystem \<Rightarrow> error + filesystem" where
  "recursiveExport 0 lib srcPath dstPath fs = Inl RecursionError"
| "recursiveExport (Suc depth) lib srcPath dstPath fs =
     (if \<not> os_path_isdir fs srcPath then Inl AssertionError
      else if \<not> os_path_exists fs dstPath then Inl AssertionError
      else case maildir_messages lib fs srcPath of
             Inl e \<Rightarrow> Inl e
           | Inr messages \<Rightarrow>
               (case exportMessages lib dstPath messages fs of
                  Inl e \<Rightarrow> Inl e
                | Inr fs1 \<Rightarrow>
                    (case list_folders lib fs1 srcPath of
                       Inl e \<Rightarrow> Inl e
                     | Inr folders \<Rightarrow>
                         exportFolders (recursiveExport depth lib) srcPath dstPath folders fs1)))"

text \<open>\<^verbatim>\<open>MaildirExporter(srcPath, dstPath).export()\<close>\<close>

definition export :: "nat \<Rightarrow> pylib \<Rightarrow> path \<Rightarrow> path \<Rightarrow> filesystem \<Rightarrow> error + filesystem" where
  "export depth lib srcPath dstPath fs =
     (case depth of
        0 \<Rightarrow> Inl RecursionError
      | Suc d \<Rightarrow> recursiveExport d lib srcPath dstPath fs)"

section \<open>Main: the tree walk\<close>

text \<open>
  The loop of \<open>exportDir\<close>, lines 54 to 69; \<open>recurse\<close> is the recursive call of
  \<open>exportDir\<close> and \<open>exporter\<close> the call of \<open>MaildirExporter(...).export()\<close>.
\<close>

fun exportDir_loop ::
  "(path \<Rightarrow> path \<Rightarrow> filesystem \<Rightarrow> error + filesystem)
   \<Rightarrow> (path \<Rightarrow> path \<Rightarrow> filesystem \<Rightarrow> error + filesystem)
   \<Rightarrow> path \<Rightarrow> path \<Rightarrow> pystr list \<Rightarrow> filesystem \<Rightarrow> error + filesystem" where
  "exportDir_loop recurse exporter srcPath dstPath [] fs = Inr fs"
| "exportDir_loop recurse exporter srcPath dstPath (fileName # fileNames) fs =
     (let filePath = os_path_join srcPath fileName
      in if \<not> os_path_isdir fs filePath
         then exportDir_loop recurse exporter srcPath dstPath fileNames fs
         else if fileName = str ''Maildir''
         then (case exporter filePath dstPath fs of
                 Inl e \<Rightarrow> Inl e
               | Inr fs1 \<Rightarrow> exportDir_loop recurse exporter srcPath dstPath fileNames fs1)
         else (let dstDir = os_path_join dstPath fileName
               in case os_mkdir fs dstDir of
                    Inl e \<Rightarrow> Inl e
                  | Inr fs1 \<Rightarrow>
                      (case recurse filePath dstDir fs1 of
                         Inl e \<Rightarrow> Inl e
                       | Inr fs2 \<Rightarrow>
                           exportDir_loop recurse exporter srcPath dstPath fileNames fs2)))"

primrec exportDir :: "nat \<Rightarrow> pylib \<Rightarrow> path \<Rightarrow> path \<Rightarrow> filesystem \<Rightarrow> error + filesystem" where
  "exportDir 0 lib srcPath dstPath fs = Inl RecursionError"
| "exportDir (Suc depth) lib srcPath dstPath fs =
     (case os_listdir fs srcPath of
        Inl e \<Rightarrow> Inl e
      | Inr fileNames \<Rightarrow>
          exportDir_loop (exportDir depth lib) (export depth lib) srcPath dstPath fileNames fs)"

section \<open>Main: run\<close>

text \<open>What a call of \<open>run\<close> returns: \<open>False\<close>, \<open>True\<close> or, with no \<open>return\<close>, \<open>None\<close>.\<close>

datatype pyvalue = PyNone | PyBool bool

definition truthy :: "pyvalue \<Rightarrow> bool" where
  "truthy v = (case v of PyNone \<Rightarrow> False | PyBool b \<Rightarrow> b)"

text \<open>Lines 48 to 51: create the destination directory, walk the source, fall off the end.\<close>

definition run_export :: "nat \<Rightarrow> pylib \<Rightarrow> path \<Rightarrow> path \<Rightarrow> filesystem \<Rightarrow> error + pyvalue \<times> filesystem" where
  "run_export depth lib srcPath dstDir fs =
     (case os_mkdir fs dstDir of
        Inl e \<Rightarrow> Inl e
      | Inr fs1 \<Rightarrow>
          (case exportDir depth lib srcPath dstDir fs1 of
             Inl e \<Rightarrow> Inl e
           | Inr fs2 \<Rightarrow> Inr (PyNone, fs2)))"

text \<open>
  \<open>Main.run\<close>, lines 25 to 51. The log calls write to the log and change nothing else;
  they are left out.
\<close>

definition run :: "nat \<Rightarrow> pylib \<Rightarrow> path \<Rightarrow> path \<Rightarrow> bool \<Rightarrow> filesystem \<Rightarrow> error + pyvalue \<times> filesystem" where
  "run depth lib srcPath dstPath force fs =
     (if \<not> os_path_isdir fs srcPath then Inr (PyBool False, fs)
      else if \<not> os_path_isdir fs dstPath then Inr (PyBool False, fs)
      else (let dstDir = os_path_join dstPath (os_path_basename srcPath)
            in if os_path_exists fs dstDir
               then (if force
                     then (case shutil_rmtree fs dstDir of
                             Inl e \<Rightarrow> Inl e
                           | Inr fs1 \<Rightarrow> run_export depth lib srcPath dstDir fs1)
                     else Inr (PyBool False, fs))
               else run_export depth lib srcPath dstDir fs))"

section \<open>Predicates of the statements and of the proofs\<close>

text \<open>A code point that sanitization leaves alone.\<close>

definition clean :: "nat \<Rightarrow> bool" where
  "clean c = (\<not> is_replaced c \<and> \<not> is_control c)"

text \<open>
  A well-formed filesystem: no path is listed twice, and the parent of every entry but
  the root is a directory.
\<close>

definition wf_fs :: "filesystem \<Rightarrow> bool" where
  "wf_fs fs =
     (distinct (map fst fs)
      \<and> list_all (\<lambda>(p, e). p = [] \<or> os_path_isdir fs (butlast p)) fs)"

text \<open>
  No directory strictly beneath \<open>srcPath\<close> is named \<open>Maildir\<close>: the source tree
  holds plain directories only.
\<close>

definition no_maildir :: "filesystem \<Rightarrow> path \<Rightarrow> bool" where
  "no_maildir fs srcPath =
     list_all (\<lambda>(q, e). \<not> (e = Directory \<and> strict_prefix srcPath q
                                \<and> last q = str ''Maildir'')) fs"

text \<open>
  \<open>dirpath fs S r\<close>: every step of the relative path \<open>r\<close> below \<open>S\<close> is a
  directory, which is how the walk reaches \<open>S @ r\<close>.
\<close>

fun dirpath :: "filesystem \<Rightarrow> path \<Rightarrow> path \<Rightarrow> bool" where
  "dirpath fs S [] = True"
| "dirpath fs S (n # r) = (os_path_isdir fs (S @ [n]) \<and> dirpath fs (S @ [n]) r)"

text \<open>\<open>no_maildir\<close> in terms of the lookup.\<close>

definition nomd :: "filesystem \<Rightarrow> path \<Rightarrow> bool" where
  "nomd fs S = (\<forall>r. r \<noteq> [] \<and> os_path_isdir fs (S @ r) \<longrightarrow> last r \<noteq> str ''Maildir'')"

text \<open>The paths at or beneath the child \<open>n\<close> of \<open>D\<close>, for some \<open>n\<close> in \<open>X\<close>.\<close>

definition below :: "path \<Rightarrow> pystr set \<Rightarrow> path \<Rightarrow> bool" where
  "below D X q = (\<exists>n r. n \<in> X \<and> q = D @ n # r)"

text \<open>
  What a call of \<open>exportDir\<close> on source \<open>S\<close> and destination \<open>D\<close> needs and
  gives: source and destination do not overlap, the destination directory exists and is
  empty, and the source holds no \<open>Maildir\<close>; afterwards the destination holds the
  directories of the source and nothing else has changed.
\<close>

definition walk_pre :: "filesystem \<Rightarrow> path \<Rightarrow> path \<Rightarrow> bool" where
  "walk_pre fs S D =
     (distinct (map fst fs) \<and> S \<parallel> D \<and> os_path_isdir fs S \<and> os_path_isdir fs D
      \<and> (\<forall>r. r \<noteq> [] \<longrightarrow> map_of fs (D @ r) = None) \<and> nomd fs S)"

definition walk_post :: "filesystem \<Rightarrow> filesystem \<Rightarrow> path \<Rightarrow> path \<Rightarrow> bool" where
  "walk_post fs fs' S D =
     (distinct (map fst fs')
      \<and> (\<forall>q. \<not> strict_prefix D q \<longrightarrow> map_of fs' q = map_of fs q)
      \<and> (\<forall>r. r \<noteq> [] \<longrightarrow>
            map_of fs' (D @ r) = (if dirpath fs S r then Some Directory else None)))"

definition walk_ok :: "(path \<Rightarrow> path \<Rightarrow> filesystem \<Rightarrow> error + filesystem) \<Rightarrow> bool" where
  "walk_ok recurse =
     (\<forall>S D fs fs'. walk_pre fs S D \<longrightarrow> recurse S D fs = Inr fs' \<longrightarrow> walk_post fs fs' S D)"

text \<open>
  The invariant of the loop of \<open>exportDir\<close>, where \<open>fs0\<close> is the filesystem when
  \<open>os.listdir\<close> was called and \<open>X\<close> the names already handled.
\<close>

definition loop_inv :: "filesystem \<Rightarrow> path \<Rightarrow> path \<Rightarrow> pystr set \<Rightarrow> filesystem \<Rightarrow> bool" where
  "loop_inv fs0 S D X fs =
     (distinct (map fst fs)
      \<and> (\<forall>q. \<not> below D X q \<longrightarrow> map_of fs q = map_of fs0 q)
      \<and> (\<forall>n \<in> X. \<forall>r. map_of fs (D @ n # r) =
            (if dirpath fs0 S (n # r) then Some Directory else None)))"

text \<open>
  \<^verbatim>\<open>bytes.decode(errors='replace')\<close> with the default codec, UTF-8: every well-formed
  sequence gives its code point, and every maximal ill-formed run of bytes that begins
  a sequence, as every byte that begins none, gives U+FFFD.
\<close>

definition utf8_continuation :: "nat \<Rightarrow> bool" where
  "utf8_continuation c = (128 \<le> c \<and> c \<le> 191)"

text \<open>The second byte that may follow the first byte \<open>b\<close> of a sequence of three or four.\<close>

definition utf8_second :: "nat \<Rightarrow> nat \<Rightarrow> bool" where
  "utf8_second b c =
     (if b = 224 then 160 \<le> c \<and> c \<le> 191
      else if b = 237 then 128 \<le> c \<and> c \<le> 159
      else if b = 240 then 144 \<le> c \<and> c \<le> 191
      else if b = 244 then 128 \<le> c \<and> c \<le> 143
      else utf8_continuation c)"

fun utf8_decode_replace :: "pybytes \<Rightarrow> pystr" where
  "utf8_decode_replace [] = []"
| "utf8_decode_replace (b # r1) =
     (if b < 128 then b # utf8_decode_replace r1
      else if 194 \<le> b \<and> b \<le> 223 then
        (case r1 of
           [] \<Rightarrow> [65533]
         | c # r2 \<Rightarrow>
             if utf8_continuation c
             then ((b - 192) * 64 + (c - 128)) # utf8_decode_replace r2
             else 65533 # utf8_decode_replace r1)
      else if 224 \<le> b \<and> b \<le> 239 then
        (case r1 of
           [] \<Rightarrow> [65533]
         | c # r2 \<Rightarrow>
             if \<not> utf8_second b c then 65533 # utf8_decode_replace r1
             else (case r2 of
                     [] \<Rightarrow> [65533]
                   | d # r3 \<Rightarrow>
                       if utf8_continuation d
                       then ((b - 224) * 4096 + (c - 128) * 64 + (d - 128))
                            # utf8_decode_replace r3
                       else 65533 # utf8_decode_replace r2))
      else if 240 \<le> b \<and> b \<le> 244 then
        (case r1 of
           [] \<Rightarrow> [65533]
         | c # r2 \<Rightarrow>
             if \<not> utf8_second b c then 65533 # utf8_decode_replace r1
             else (case r2 of
                     [] \<Rightarrow> [65533]
                   | d # r3 \<Rightarrow>
                       if \<not> utf8_continuation d then 65533 # utf8_decode_replace r2
                       else (case r3 of
                               [] \<Rightarrow> [65533]
                             | e # r4 \<Rightarrow>
                                 if utf8_continuation e
                                 then ((b - 240) * 262144 + (c - 128) * 4096
                                       + (d - 128) * 64 + (e - 128))
                                      # utf8_decode_replace r4
                                 else 65533 # utf8_decode_replace r3)))
      else 65533 # utf8_decode_replace r1)"

text \<open>
  An instance of the library for evaluating the model on examples. \<open>decode_header\<close>
  is given for headers without encoded words; \<open>codecs.lookup\<close> knows the codec
  \<open>ascii\<close>, raises \<open>ValueError\<close> for a name with a NUL character and \<open>LookupError\<close>
  otherwise; the strict decoder is the one of \<open>ascii\<close>; the decoder with replacement
  is the one of UTF-8; two date strings parse, the second to a year that
  \<open>fromtimestamp\<close> refuses; the local time zone has offset 0; maildirs hold no
  message and no folder.
\<close>

definition sample_lib :: pylib where
  "sample_lib =
     \<lparr>decode_header = (\<lambda>h. Inr [(StrValue h, None)]),
      codecs_lookup = (\<lambda>cs. if cs = str ''ascii'' then None
                            else if 0 \<in> set cs then Some ValueError
                            else Some LookupError),
      bytes_decode = (\<lambda>cs b. if list_all (\<lambda>x. x < 128) b then Inr b else Inl UnicodeDecodeError),
      bytes_decode_replace = utf8_decode_replace,
      parsedate = (\<lambda>s. if s = str ''1 Jan 2004 00:00:00'' then Some (2004, 1, 1, 0, 0, 0, 0, 1, -1)
                        else if s = str ''1 Jan 12345 00:00:00'' then Some (12345, 1, 1, 0, 0, 0, 0, 1, -1)
                        else None),
      mktime = (\<lambda>date. if date = (2004, 1, 1, 0, 0, 0, 0, 1, -1) then Inr 1072915200
                        else if date = (12345, 1, 1, 0, 0, 0, 0, 1, -1) then Inr 327403382400
                        else Inl OverflowError),
      fromtimestamp = (\<lambda>t. if t = 0 then Inr \<lparr>year = 1970, month = 1, day = 1, hour = 0, minute = 0, second = 0\<rparr>
                            else if t = 1072915200 then Inr \<lparr>year = 2004, month = 1, day = 1, hour = 0, minute = 0, second = 0\<rparr>
                            else Inl ValueError),
      maildir_messages = (\<lambda>fs p. Inr []),
      list_folders = (\<lambda>fs p. Inr [])\<rparr>"

text \<open>Filesystems for evaluating the model on examples.\<close>

definition fs_plain :: filesystem where
  "fs_plain =
     [([], Directory),
      ([str ''src''], Directory),
      ([str ''src'', str ''a''], Directory),
      ([str ''src'', str ''a'', str ''b''], Directory),
      ([str ''src'', str ''notes.txt''], RegularFile [104, 105]),
      ([str ''dst''], Directory)]"

definition fs_existing :: filesystem where
  "fs_existing =
     [([], Directory),
      ([str ''src''], Directory),
      ([str ''src'', str ''a''], Directory),
      ([str ''dst''], Directory),
      ([str ''dst'', str ''src''], Directory),
      ([str ''dst'', str ''src'', str ''old.eml''], RegularFile [104, 105])]"

definition fs_nested :: filesystem where
  "fs_nested =
     [([], Directory),
      ([str ''x''], Directory),
      ([str ''x'', str ''y''], Directory),
      ([str ''x'', str ''y'', str ''z''], Directory)]"

text \<open>
  What \<open>decode_header\<close> returns for the header \<^verbatim>\<open>Hello =?ascii?q?World?=\<close>: the plain
  part with its trailing space, then the encoded word.
\<close>

definition two_fragments :: "fragment list" where
  "two_fragments =
     [(BytesValue (str ''Hello ''), None), (BytesValue (str ''World''), Some (str ''ascii''))]"

section \<open>Sanitization: proofs\<close>

lemma fold_upd_lookup:
  "fold (\<lambda>x m. m(x \<mapsto> v)) xs m0 c = (if c \<in> set xs then Some v else m0 c)"
  by (induction xs arbitrary: m0) auto

lemma dict_comp_lookup:
  "dict_comp v xs c = (if c \<in> set xs then Some v else None)"
  by (simp add: dict_comp_def fold_upd_lookup)

lemma translate_replace:
  "translate (dict_comp [u] xs) s = map (\<lambda>c. if c \<in> set xs then u else c) s"
  by (induction s) (simp_all add: translate_def dict_comp_lookup)

lemma translate_delete:
  "translate (dict_comp [] xs) s = filter (\<lambda>c. c \<notin> set xs) s"
  by (induction s) (simp_all add: translate_def dict_comp_lookup)

lemma str_underscore: "str ''_'' = [95]"
  by (simp add: str_def)

lemma str_empty: "str '''' = []"
  by (simp add: str_def)

lemma sanitize_eq_spec: "sanitize s = sanitize_spec s"
  by (simp add: sanitize_def sanitize_spec_def translate_replace translate_delete
      str_underscore str_empty is_replaced_def is_control_def removeChars_def
      MAXSUBJLEN_def ELLIPSIS_def Let_def)

lemma is_replaced_iff:
  "is_replaced c \<longleftrightarrow> c \<in> {42, 46, 34, 47, 92, 91, 93, 58, 59, 124}"
  by (simp add: is_replaced_def REPLACECHARS_def)

lemma stripped_clean:
  "c \<in> set (filter (\<lambda>c. \<not> is_control c) (map (\<lambda>c. if is_replaced c then 95 else c) s))
   \<Longrightarrow> clean c"
  by (auto simp: clean_def is_replaced_iff split: if_splits)

lemma strip_clean_id:
  "\<forall>c \<in> set s. clean c \<Longrightarrow>
   filter (\<lambda>c. \<not> is_control c) (map (\<lambda>c. if is_replaced c then 95 else c) s) = s"
  by (induction s) (auto simp: clean_def)

lemma ellipsis_clean: "clean 8230"
  by (simp add: clean_def is_replaced_iff is_control_def)

lemma sanitize_spec_clean: "c \<in> set (sanitize_spec s) \<Longrightarrow> clean c"
  unfolding sanitize_spec_def Let_def
  using stripped_clean [of _ s] ellipsis_clean
  by (auto split: if_splits dest!: in_set_takeD)

lemma sanitize_spec_length: "length (sanitize_spec s) \<le> 101"
  by (simp add: sanitize_spec_def Let_def)

lemma sanitize_spec_idem: "sanitize_spec (sanitize_spec s) = sanitize_spec s"
proof -
  have id: "filter (\<lambda>c. \<not> is_control c)
              (map (\<lambda>c. if is_replaced c then 95 else c) (sanitize_spec s)) = sanitize_spec s"
    by (rule strip_clean_id) (simp add: sanitize_spec_clean)
  define b where
    "b = filter (\<lambda>c. \<not> is_control c) (map (\<lambda>c. if is_replaced c then 95 else c) s)"
  have out: "sanitize_spec s = (if length b > 100 then take 100 b @ [8230] else b)"
    by (simp add: sanitize_spec_def b_def Let_def)
  have "sanitize_spec (sanitize_spec s) =
        (if length (sanitize_spec s) > 100 then take 100 (sanitize_spec s) @ [8230]
         else sanitize_spec s)"
    using id by (simp add: sanitize_spec_def [of "sanitize_spec s"] Let_def)
  also have "\<dots> = sanitize_spec s"
    by (simp add: out)
  finally show ?thesis .
qed

text \<open>
  Claim C3. For every subject, the sanitization of the source is the three steps of the
  specification in their order (replace the ten characters by an underscore, remove the
  control characters 0 to 31, truncate to 100 characters and append the ellipsis only
  when the string is longer than 100); its result holds none of the ten characters and
  no control character, and is at most 101 characters long.
\<close>

theorem sanitize_steps:
  "sanitize s = sanitize_spec s
   \<and> (\<forall>c \<in> set (sanitize s). c \<notin> set REPLACECHARS \<and> \<not> c < 32)
   \<and> length (sanitize s) \<le> 101"
  using sanitize_spec_clean [of _ s] sanitize_spec_length [of s]
  by (auto simp: sanitize_eq_spec clean_def is_replaced_def is_control_def)

theorem sanitize_steps_witness:
  "sanitize (str ''Re: a/b'') = sanitize_spec (str ''Re: a/b'')
   \<and> sanitize (str ''Re: a/b'') = str ''Re_ a_b''
   \<and> 58 \<notin> set (sanitize (str ''Re: a/b''))
   \<and> 47 \<notin> set (sanitize (str ''Re: a/b''))
   \<and> length (sanitize (str ''Re: a/b'')) \<le> 101"
proof -
  have e: "sanitize (str ''Re: a/b'') = str ''Re_ a_b''"
    by code_simp
  have r: "58 \<in> set REPLACECHARS" "47 \<in> set REPLACECHARS"
    by (simp_all add: REPLACECHARS_def)
  show ?thesis
    using e r sanitize_steps [of "str ''Re: a/b''"] by blast
qed

text \<open>
  Claim C4. Sanitization is idempotent: sanitizing a sanitized subject gives it back.
\<close>

theorem sanitize_idempotent: "sanitize (sanitize s) = sanitize s"
  by (simp add: sanitize_eq_spec sanitize_spec_idem)

section \<open>The file name: proofs\<close>

lemma decimal_digits: "c \<in> set (decimal n) \<Longrightarrow> 48 \<le> c \<and> c \<le> 57"
proof (induction n arbitrary: c rule: decimal.induct)
  case (1 n)
  show ?case
  proof (cases "n < 10")
    case True
    then show ?thesis using "1.prems" by (simp add: decimal.simps [of n])
  next
    case False
    have "n mod 10 < 10" by simp
    then have "48 + n mod 10 \<le> 57" by linarith
    then show ?thesis
      using False "1.prems" "1.IH" [of c] by (auto simp: decimal.simps [of n])
  qed
qed

lemma zfill_digits: "c \<in> set (zfill w (decimal n)) \<Longrightarrow> 48 \<le> c \<and> c \<le> 57"
  using decimal_digits [of c n] by (auto simp: zfill_def)

lemma strftime_chars:
  "c \<in> set (strftime date) \<Longrightarrow> (48 \<le> c \<and> c \<le> 57) \<or> c = 45 \<or> c = 32 \<or> c = 58"
  unfolding strftime_def str_def
  by (auto dest: zfill_digits decimal_digits)

lemma strftime_colon: "58 \<in> set (strftime date)"
  by (simp add: strftime_def str_def)

lemma emlFileName_chars:
  assumes "c \<in> set (emlFileName date subject)"
  shows "c \<notin> {42, 34, 47, 92, 91, 93, 59, 124} \<and> \<not> c < 32"
proof -
  from assms consider "c \<in> set (strftime date)" | "c = 32" | "c \<in> set (sanitize subject)"
    | "c \<in> {46, 101, 109, 108}"
    by (auto simp: emlFileName_def str_def)
  then show ?thesis
  proof cases
    case 1
    then show ?thesis using strftime_chars [of c date] by auto
  next
    case 2
    then show ?thesis by simp
  next
    case 3
    then have "clean c" by (simp add: sanitize_eq_spec sanitize_spec_clean)
    then show ?thesis by (auto simp: clean_def is_replaced_iff is_control_def)
  next
    case 4
    then show ?thesis by auto
  qed
qed

lemma messageFileName_Inr:
  assumes "messageFileName lib m = Inr name"
  obtains date subject where "deriveSubject lib (subject_header m) = Inr subject"
    and "deriveDate lib (date_header m) = Inr date"
    and "name = emlFileName date subject"
  using assms by (auto simp: messageFileName_def split: sum.splits)

text \<open>
  Claim C2, as amended. The claim as stated fails: the name of every exported message
  holds a colon (in the time of day) and a full stop (in the suffix), two of the ten
  characters. What holds: the name is the timestamp, one space, the sanitized subject
  and \<open>.eml\<close>; it holds none of the characters \<open>* " / \ [ ] ; |\<close> and no control
  character 0 to 31; and its sanitized subject holds none of the ten characters.
\<close>

theorem fileName_safe_characters:
  assumes "messageFileName lib m = Inr name"
  shows "(\<forall>c \<in> set name. c \<notin> {42, 34, 47, 92, 91, 93, 59, 124} \<and> \<not> c < 32)
    \<and> 58 \<in> set name \<and> 46 \<in> set name
    \<and> (\<exists>date subject. deriveSubject lib (subject_header m) = Inr subject
          \<and> deriveDate lib (date_header m) = Inr date
          \<and> name = strftime date @ str '' '' @ sanitize subject @ str ''.eml''
          \<and> set (sanitize subject) \<inter> set REPLACECHARS = {})"
proof -
  from assms obtain date subject where s: "deriveSubject lib (subject_header m) = Inr subject"
    and d: "deriveDate lib (date_header m) = Inr date"
    and n: "name = emlFileName date subject"
    by (rule messageFileName_Inr)
  have 1: "\<forall>c \<in> set name. c \<notin> {42, 34, 47, 92, 91, 93, 59, 124} \<and> \<not> c < 32"
    using emlFileName_chars [of _ date subject] by (auto simp only: n)
  have 2: "58 \<in> set name"
    using strftime_colon [of date] by (simp add: n emlFileName_def)
  have 3: "46 \<in> set name"
    by (simp add: n emlFileName_def str_def)
  have 4: "set (sanitize subject) \<inter> set REPLACECHARS = {}"
    using sanitize_spec_clean [of _ subject]
    by (auto simp: sanitize_eq_spec clean_def is_replaced_def)
  have 5: "name = strftime date @ str '' '' @ sanitize subject @ str ''.eml''"
    by (simp add: n emlFileName_def)
  show ?thesis
    using 1 2 3 4 5 s d by blast
qed

theorem fileName_safe_characters_witness:
  "messageFileName sample_lib
     \<lparr>subject_header = Some (str ''Re: a/b''), date_header = None, as_bytes = []\<rparr>
     = Inr (str ''1970-01-01 00:00:00 Re_ a_b.eml'')
   \<and> 47 \<notin> set (str ''1970-01-01 00:00:00 Re_ a_b.eml'')
   \<and> 58 \<in> set (str ''1970-01-01 00:00:00 Re_ a_b.eml'')
   \<and> 46 \<in> set (str ''1970-01-01 00:00:00 Re_ a_b.eml'')"
proof -
  have e: "messageFileName sample_lib
     \<lparr>subject_header = Some (str ''Re: a/b''), date_header = None, as_bytes = []\<rparr>
     = Inr (str ''1970-01-01 00:00:00 Re_ a_b.eml'')"
    by code_simp
  show ?thesis
    using e fileName_safe_characters [OF e] by blast
qed

text \<open>
  The counterexample to claim C2 as stated: the name of a message with the subject
  \<open>hello\<close> and no date holds the colon and the full stop, both in \<open>REPLACECHARS\<close>.
\<close>

theorem fileName_unsafe_counterexample:
  "messageFileName sample_lib
     \<lparr>subject_header = Some (str ''hello''), date_header = None, as_bytes = []\<rparr>
     = Inr (str ''1970-01-01 00:00:00 hello.eml'')
   \<and> emlFileName \<lparr>year = 1970, month = 1, day = 1, hour = 0, minute = 0, second = 0\<rparr>
        (str ''hello'') = str ''1970-01-01 00:00:00 hello.eml''
   \<and> 58 \<in> set REPLACECHARS \<and> 58 \<in> set (str ''1970-01-01 00:00:00 hello.eml'')
   \<and> 46 \<in> set REPLACECHARS \<and> 46 \<in> set (str ''1970-01-01 00:00:00 hello.eml'')"
  by code_simp

section \<open>Subject derivation: proofs\<close>

text \<open>
  Claim C9. A Subject header that is present but empty gives the placeholder
  \<open>(no subject)\<close>, as an absent header does: the placeholder branch is taken for every
  false value of \<^verbatim>\<open>message['Subject']\<close>.
\<close>

theorem no_subject_placeholder:
  "deriveSubject lib (Some []) = deriveSubject lib None
   \<and> deriveSubject lib None = Inr (str ''(no subject)'')
   \<and> (\<not> header_truthy h \<longrightarrow> deriveSubject lib h = Inr (str ''(no subject)''))"
  by (simp add: deriveSubject_def header_truthy_def)

theorem no_subject_placeholder_witness:
  "\<not> header_truthy (Some [])
   \<and> deriveSubject sample_lib (Some []) = Inr (str ''(no subject)'')
   \<and> deriveSubject sample_lib (Some []) = deriveSubject sample_lib None"
proof -
  have f: "\<not> header_truthy (Some [])"
    by (simp add: header_truthy_def)
  show ?thesis
    using f no_subject_placeholder [of sample_lib "Some []"] by blast
qed

lemma decodeBytes_decode_header_upd:
  "decodeBytes (lib\<lparr>decode_header := f\<rparr>) b charset = decodeBytes lib b charset"
  by (simp add: decodeBytes_def split: option.split)

lemma decodeFragment_decode_header_upd:
  "decodeFragment (lib\<lparr>decode_header := f\<rparr>) frag = decodeFragment lib frag"
  by (simp add: decodeFragment_def decodeBytes_decode_header_upd split: hdrvalue.split)

lemma email_utils_parsedate_decode_header_upd:
  "email_utils_parsedate (lib\<lparr>decode_header := f\<rparr>) d = email_utils_parsedate lib d"
  by (simp add: email_utils_parsedate_def split: option.split header_value.split)

lemma deriveDate_decode_header_upd:
  "deriveDate (lib\<lparr>decode_header := f\<rparr>) d = deriveDate lib d"
  by (simp add: deriveDate_def email_utils_parsedate_decode_header_upd
      split: sum.split option.split)

lemma deriveSubject_first:
  "h \<noteq> [] \<Longrightarrow> decode_header lib h = Inr (first # rest)
   \<Longrightarrow> deriveSubject lib (Some h) = decodeFragment lib first"
  by (simp add: deriveSubject_def header_truthy_def firstFragment_def)

text \<open>
  Claim C10. When the Subject header decodes to more than one fragment, the derived
  subject is the decoding of the first fragment alone: replacing the fragments after
  the first by any others changes neither the derived subject nor the file name.
\<close>

theorem first_fragment_only:
  assumes "h \<noteq> []" and "decode_header lib h = Inr (first # rest)" and "rest \<noteq> []"
  shows "deriveSubject lib (Some h) = decodeFragment lib first
    \<and> deriveSubject (lib\<lparr>decode_header := (decode_header lib)(h := Inr (first # rest'))\<rparr>) (Some h)
        = deriveSubject lib (Some h)
    \<and> messageFileName (lib\<lparr>decode_header := (decode_header lib)(h := Inr (first # rest'))\<rparr>)
          \<lparr>subject_header = Some h, date_header = d, as_bytes = content\<rparr>
        = messageFileName lib \<lparr>subject_header = Some h, date_header = d, as_bytes = content\<rparr>"
proof -
  let ?lib' = "lib\<lparr>decode_header := (decode_header lib)(h := Inr (first # rest'))\<rparr>"
  have 1: "deriveSubject lib (Some h) = decodeFragment lib first"
    using assms by (simp add: deriveSubject_first)
  have "decode_header ?lib' h = Inr (first # rest')"
    by simp
  then have "deriveSubject ?lib' (Some h) = decodeFragment ?lib' first"
    using assms(1) by (rule deriveSubject_first [rotated])
  then have 2: "deriveSubject ?lib' (Some h) = deriveSubject lib (Some h)"
    by (simp add: 1 decodeFragment_decode_header_upd)
  show ?thesis
    by (simp add: 1 [symmetric] 2 messageFileName_def deriveDate_decode_header_upd
        split: sum.splits)
qed

theorem first_fragment_only_witness:
  "decode_header (sample_lib\<lparr>decode_header := (\<lambda>h. Inr two_fragments)\<rparr>) (str ''Hello =?ascii?q?World?='')
     = Inr ((BytesValue (str ''Hello ''), None) # [(BytesValue (str ''World''), Some (str ''ascii''))])
   \<and> deriveSubject (sample_lib\<lparr>decode_header := (\<lambda>h. Inr two_fragments)\<rparr>)
        (Some (str ''Hello =?ascii?q?World?='')) = Inr (str ''Hello '')"
proof -
  let ?lib = "sample_lib\<lparr>decode_header := (\<lambda>h. Inr two_fragments)\<rparr>"
  have a: "str ''Hello =?ascii?q?World?='' \<noteq> []"
    by (simp add: str_def)
  have b: "decode_header ?lib (str ''Hello =?ascii?q?World?='')
     = Inr ((BytesValue (str ''Hello ''), None) # [(BytesValue (str ''World''), Some (str ''ascii''))])"
    by (simp add: two_fragments_def)
  have c: "[(BytesValue (str ''World''), Some (str ''ascii''))] \<noteq> []"
    by simp
  have d: "decodeFragment ?lib (BytesValue (str ''Hello ''), None) = Inr (str ''Hello '')"
    by (simp add: decodeFragment_def decodeBytes_def header_truthy_def
        decode_ascii_replace_def str_def)
  show ?thesis
    using b d first_fragment_only [OF a b c] by simp
qed

text \<open>
  Claim C6. For a Subject fragment that is \<open>bytes\<close>: with no charset, or a charset
  that starts with \<open>unknown\<close>, the bytes are decoded as ASCII, each byte that is not
  ASCII becoming U+FFFD, and no exception is raised; with a charset for which
  \<open>codecs.lookup\<close> raises \<open>LookupError\<close>, the default codec decodes with replacement
  and no exception is raised; with a charset for which \<open>codecs.lookup\<close> returns, the
  strict decoding is used, whose exception, if any, is the result. The claim says that
  every charset that is no recognized codec falls back; the code does not: when
  \<open>codecs.lookup\<close> raises an exception that is no \<open>LookupError\<close>, as \<open>ValueError\<close>
  for a name with a NUL character, \<^verbatim>\<open>except LookupError\<close> lets it through and it is the
  result.
\<close>

theorem bytes_subject_decoding:
  "(\<not> header_truthy charset \<or> startswith (the charset) (str ''unknown'')
      \<longrightarrow> decodeFragment lib (BytesValue b, charset) = Inr (decode_ascii_replace b))
   \<and> (header_truthy charset \<and> \<not> startswith (the charset) (str ''unknown'')
        \<and> codecs_lookup lib (the charset) = Some LookupError
      \<longrightarrow> decodeFragment lib (BytesValue b, charset) = Inr (bytes_decode_replace lib b))
   \<and> (header_truthy charset \<and> \<not> startswith (the charset) (str ''unknown'')
        \<and> codecs_lookup lib (the charset) = Some ValueError
      \<longrightarrow> decodeFragment lib (BytesValue b, charset) = Inl ValueError)
   \<and> (header_truthy charset \<and> \<not> startswith (the charset) (str ''unknown'')
        \<and> codecs_lookup lib (the charset) = Some e \<and> \<not> except_LookupError e
      \<longrightarrow> decodeFragment lib (BytesValue b, charset) = Inl e)
   \<and> (header_truthy charset \<and> \<not> startswith (the charset) (str ''unknown'')
        \<and> codecs_lookup lib (the charset) = None
      \<longrightarrow> decodeFragment lib (BytesValue b, charset) = bytes_decode lib (the charset) b)
   \<and> length (decode_ascii_replace b) = length b
   \<and> (\<forall>c \<in> set (decode_ascii_replace b). c < 128 \<or> c = 65533)"
  by (auto simp: decodeFragment_def decodeBytes_def decode_ascii_replace_def
      except_LookupError_def)

text \<open>
  The failing input of claim C6: the header \<^verbatim>\<open>Subject: =?a\x00b?q?x?=\<close> decodes to the
  bytes \<open>x\<close> with the charset \<open>a\x00b\<close>, which is no codec; the decoding raises
  \<open>ValueError\<close>. The other branches are evaluated beside it.
\<close>

theorem bytes_subject_decoding_witness:
  "decodeFragment sample_lib (BytesValue (str ''x''), Some [97, 0, 98]) = Inl ValueError
   \<and> decodeFragment sample_lib (BytesValue [72, 233], None) = Inr [72, 65533]
   \<and> decodeFragment sample_lib (BytesValue [72, 233], Some (str ''unknown-8bit'')) = Inr [72, 65533]
   \<and> decodeFragment sample_lib (BytesValue [72, 195, 169, 233], Some (str ''x-nonexistent''))
       = Inr [72, 233, 65533]
   \<and> decodeFragment sample_lib (BytesValue [72, 233], Some (str ''ascii'')) = Inl UnicodeDecodeError
   \<and> decodeFragment sample_lib (BytesValue [72, 105], Some (str ''ascii'')) = Inr [72, 105]"
proof -
  have a: "decode_ascii_replace [72, 233] = [72, 65533]"
    by (simp add: decode_ascii_replace_def)
  have r: "bytes_decode_replace sample_lib [72, 195, 169, 233] = [72, 233, 65533]"
    by (simp add: sample_lib_def utf8_continuation_def)
  have n: "\<not> header_truthy None"
    by (simp add: header_truthy_def)
  have u: "startswith (the (Some (str ''unknown-8bit''))) (str ''unknown'')"
    by (simp add: startswith_def str_def)
  have z: "header_truthy (Some [97, 0, 98])
      \<and> \<not> startswith (the (Some [97, 0, 98])) (str ''unknown'')
      \<and> codecs_lookup sample_lib (the (Some [97, 0, 98])) = Some ValueError"
    by (simp add: header_truthy_def startswith_def str_def sample_lib_def)
  have x: "header_truthy (Some (str ''x-nonexistent''))
      \<and> \<not> startswith (the (Some (str ''x-nonexistent''))) (str ''unknown'')
      \<and> codecs_lookup sample_lib (the (Some (str ''x-nonexistent''))) = Some LookupError"
    by (simp add: header_truthy_def startswith_def str_def sample_lib_def)
  have k: "header_truthy (Some (str ''ascii''))
      \<and> \<not> startswith (the (Some (str ''ascii''))) (str ''unknown'')
      \<and> codecs_lookup sample_lib (the (Some (str ''ascii''))) = None"
    by (simp add: header_truthy_def startswith_def str_def sample_lib_def)
  have s1: "bytes_decode sample_lib (the (Some (str ''ascii''))) [72, 233] = Inl UnicodeDecodeError"
    by (simp add: sample_lib_def)
  have s2: "bytes_decode sample_lib (the (Some (str ''ascii''))) [72, 105] = Inr [72, 105]"
    by (simp add: sample_lib_def)
  have 0: "decodeFragment sample_lib (BytesValue (str ''x''), Some [97, 0, 98]) = Inl ValueError"
    using bytes_subject_decoding [of "Some [97, 0, 98]" sample_lib "str ''x''"] z
    by blast
  have 1: "decodeFragment sample_lib (BytesValue [72, 233], None) = Inr [72, 65533]"
  proof -
    have "decodeFragment sample_lib (BytesValue [72, 233], None) = Inr (decode_ascii_replace [72, 233])"
      using bytes_subject_decoding [of None sample_lib "[72, 233]"] n by blast
    then show ?thesis by (simp only: a)
  qed
  have 2: "decodeFragment sample_lib (BytesValue [72, 233], Some (str ''unknown-8bit'')) = Inr [72, 65533]"
  proof -
    have "decodeFragment sample_lib (BytesValue [72, 233], Some (str ''unknown-8bit''))
        = Inr (decode_ascii_replace [72, 233])"
      using bytes_subject_decoding [of "Some (str ''unknown-8bit'')" sample_lib "[72, 233]"] u
      by blast
    then show ?thesis by (simp only: a)
  qed
  have 3: "decodeFragment sample_lib (BytesValue [72, 195, 169, 233], Some (str ''x-nonexistent''))
       = Inr [72, 233, 65533]"
  proof -
    have "decodeFragment sample_lib (BytesValue [72, 195, 169, 233], Some (str ''x-nonexistent''))
        = Inr (bytes_decode_replace sample_lib [72, 195, 169, 233])"
      using bytes_subject_decoding [of "Some (str ''x-nonexistent'')" sample_lib "[72, 195, 169, 233]"] x
      by blast
    then show ?thesis by (simp only: r)
  qed
  have 4: "decodeFragment sample_lib (BytesValue [72, 233], Some (str ''ascii'')) = Inl UnicodeDecodeError"
  proof -
    have "decodeFragment sample_lib (BytesValue [72, 233], Some (str ''ascii''))
        = bytes_decode sample_lib (the (Some (str ''ascii''))) [72, 233]"
      using bytes_subject_decoding [of "Some (str ''ascii'')" sample_lib "[72, 233]"] k
      by blast
    then show ?thesis by (simp only: s1)
  qed
  have 5: "decodeFragment sample_lib (BytesValue [72, 105], Some (str ''ascii'')) = Inr [72, 105]"
  proof -
    have "decodeFragment sample_lib (BytesValue [72, 105], Some (str ''ascii''))
        = bytes_decode sample_lib (the (Some (str ''ascii''))) [72, 105]"
      using bytes_subject_decoding [of "Some (str ''ascii'')" sample_lib "[72, 105]"] k
      by blast
    then show ?thesis by (simp only: s2)
  qed
  show ?thesis
    using 0 1 2 3 4 5 by blast
qed

section \<open>Date derivation: proofs\<close>

text \<open>
  Claim C5, as amended. The claim as stated fails twice: a Date header with a raw 8-bit
  byte is present and does not parse, and \<open>parsedate\<close> raises on it instead of
  returning \<open>None\<close>; and a Date header that parses to a year beyond 9999 gives an
  exception of \<open>fromtimestamp\<close>, no timestamp. What holds, for a Date header that is
  absent or that \<^verbatim>\<open>message['Date']\<close> returns as a string: an absent header, an empty
  one and one that \<open>parsedate\<close> cannot parse all give \<open>fromtimestamp(0)\<close>, the Unix
  epoch in local time, the same value in each case; a header that parses gives
  \<open>fromtimestamp(mktime(date))\<close>, a local calendar time in whole seconds, when both
  library calls return, and the exception of the one that raises when one does.
\<close>

theorem date_fallback:
  "deriveDate lib None = fromtimestamp lib 0
   \<and> deriveDate lib (Some (HeaderStr [])) = fromtimestamp lib 0
   \<and> (parsedate lib h = None \<longrightarrow> deriveDate lib (Some (HeaderStr h)) = fromtimestamp lib 0)
   \<and> (parsedate lib h = None \<longrightarrow> deriveDate lib (Some (HeaderStr h)) = deriveDate lib None)
   \<and> (h \<noteq> [] \<and> parsedate lib h = Some date \<and> mktime lib date = Inr t
        \<and> fromtimestamp lib t = Inr dt
        \<longrightarrow> deriveDate lib (Some (HeaderStr h)) = Inr dt)
   \<and> (h \<noteq> [] \<and> parsedate lib h = Some date \<and> mktime lib date = Inl e
        \<longrightarrow> deriveDate lib (Some (HeaderStr h)) = Inl e)
   \<and> (h \<noteq> [] \<and> parsedate lib h = Some date \<and> mktime lib date = Inr t
        \<and> fromtimestamp lib t = Inl e
        \<longrightarrow> deriveDate lib (Some (HeaderStr h)) = Inl e)"
  by (simp add: deriveDate_def email_utils_parsedate_def)

theorem date_fallback_witness:
  "deriveDate sample_lib None =
     Inr \<lparr>year = 1970, month = 1, day = 1, hour = 0, minute = 0, second = 0\<rparr>
   \<and> deriveDate sample_lib (Some (HeaderStr (str ''yesterday''))) = deriveDate sample_lib None
   \<and> deriveDate sample_lib (Some (HeaderStr (str ''1 Jan 2004 00:00:00''))) =
     Inr \<lparr>year = 2004, month = 1, day = 1, hour = 0, minute = 0, second = 0\<rparr>"
proof -
  have a: "fromtimestamp sample_lib 0 =
      Inr \<lparr>year = 1970, month = 1, day = 1, hour = 0, minute = 0, second = 0\<rparr>"
    by (simp add: sample_lib_def)
  have b: "parsedate sample_lib (str ''yesterday'') = None"
    by (simp add: sample_lib_def str_def)
  have c: "str ''1 Jan 2004 00:00:00'' \<noteq> []
      \<and> parsedate sample_lib (str ''1 Jan 2004 00:00:00'') = Some (2004, 1, 1, 0, 0, 0, 0, 1, - 1)
      \<and> mktime sample_lib (2004, 1, 1, 0, 0, 0, 0, 1, - 1) = Inr 1072915200
      \<and> fromtimestamp sample_lib 1072915200 =
          Inr \<lparr>year = 2004, month = 1, day = 1, hour = 0, minute = 0, second = 0\<rparr>"
    by (simp add: sample_lib_def str_def)
  have 1: "deriveDate sample_lib None =
     Inr \<lparr>year = 1970, month = 1, day = 1, hour = 0, minute = 0, second = 0\<rparr>"
    using date_fallback [of sample_lib "str ''yesterday''"] a by simp
  have 2: "deriveDate sample_lib (Some (HeaderStr (str ''yesterday''))) = deriveDate sample_lib None"
    using date_fallback [of sample_lib "str ''yesterday''"] b by blast
  have 3: "deriveDate sample_lib (Some (HeaderStr (str ''1 Jan 2004 00:00:00''))) =
     Inr \<lparr>year = 2004, month = 1, day = 1, hour = 0, minute = 0, second = 0\<rparr>"
    using date_fallback [of sample_lib "str ''1 Jan 2004 00:00:00''"
        "(2004, 1, 1, 0, 0, 0, 0, 1, - 1)" 1072915200
        "\<lparr>year = 2004, month = 1, day = 1, hour = 0, minute = 0, second = 0\<rparr>"] c
    by blast
  show ?thesis
    using 1 2 3 by blast
qed

text \<open>
  The counterexample to claim C5 as stated: the header \<^verbatim>\<open>Date: caf\xe9\<close> is present
  and is no date, and its derivation raises \<open>AttributeError\<close> where the absent header
  gives the epoch; the header \<^verbatim>\<open>Date: 1 Jan 12345 00:00:00\<close> parses, and its
  derivation raises \<open>ValueError\<close>.
\<close>

theorem date_fallback_counterexample:
  "deriveDate sample_lib None =
     Inr \<lparr>year = 1970, month = 1, day = 1, hour = 0, minute = 0, second = 0\<rparr>
   \<and> deriveDate sample_lib (Some (HeaderObject [99, 97, 102, 233])) = Inl AttributeError
   \<and> parsedate sample_lib (str ''1 Jan 12345 00:00:00'') = Some (12345, 1, 1, 0, 0, 0, 0, 1, - 1)
   \<and> deriveDate sample_lib (Some (HeaderStr (str ''1 Jan 12345 00:00:00''))) = Inl ValueError"
  by (simp add: deriveDate_def email_utils_parsedate_def sample_lib_def str_def)

section \<open>The tree walk: proofs\<close>

lemma parallel_append_neq: "S \<parallel> D \<Longrightarrow> S @ x \<noteq> D @ y"
  by (metis parallel_append parallel_def prefix_order.order_refl)

lemma parallel_not_below: "S \<parallel> D \<Longrightarrow> \<not> below D X (S @ x)"
  using parallel_append_neq [of S D x] by (auto simp: below_def)

lemma parallel_not_strict_prefix: "S \<parallel> D \<Longrightarrow> \<not> strict_prefix D (S @ x)"
  using parallel_append_neq [of S D x] by (auto simp: strict_prefix_def prefix_def)

lemma dirpath_cong:
  "(\<And>x. map_of fs (S @ x) = map_of fs0 (S @ x)) \<Longrightarrow> dirpath fs S r = dirpath fs0 S r"
proof (induction r arbitrary: S)
  case Nil
  then show ?case by simp
next
  case (Cons n r)
  have "dirpath fs (S @ [n]) r = dirpath fs0 (S @ [n]) r"
  proof (rule Cons.IH)
    fix x show "map_of fs ((S @ [n]) @ x) = map_of fs0 ((S @ [n]) @ x)"
      using Cons.prems [of "n # x"] by simp
  qed
  then show ?case
    using Cons.prems [of "[n]"] by (simp add: os_path_isdir_def)
qed

lemma os_mkdir_Inr:
  "os_mkdir fs p = Inr fs' \<Longrightarrow> fs' = (p, Directory) # fs \<and> map_of fs p = None"
  by (auto simp: os_mkdir_def os_path_exists_def split: if_splits)

lemma os_listdir_Inr:
  assumes "os_listdir fs S = Inr ns"
  shows "os_path_isdir fs S"
    and "\<And>n. n \<in> set ns \<longleftrightarrow> S @ [n] \<in> fst ` set fs"
    and "distinct (map fst fs) \<Longrightarrow> distinct ns"
proof -
  have ns: "ns = map (\<lambda>(q, e). last q) (filter (\<lambda>(q, e). q \<noteq> [] \<and> butlast q = S) fs)"
    and d: "map_of fs S = Some Directory"
    using assms by (auto simp: os_listdir_def split: option.splits entry.splits)
  show "os_path_isdir fs S"
    using d by (simp add: os_path_isdir_def)
  show "n \<in> set ns \<longleftrightarrow> S @ [n] \<in> fst ` set fs" for n
  proof
    assume "n \<in> set ns"
    then obtain q e where "(q, e) \<in> set fs" "q \<noteq> []" "butlast q = S" "n = last q"
      by (auto simp: ns)
    then show "S @ [n] \<in> fst ` set fs"
      by (metis append_butlast_last_id fst_conv image_eqI)
  next
    assume "S @ [n] \<in> fst ` set fs"
    then obtain e where "(S @ [n], e) \<in> set fs" by auto
    then show "n \<in> set ns"
      by (force simp: ns image_iff)
  qed
  show "distinct ns" if "distinct (map fst fs)"
  proof -
    let ?ch = "filter (\<lambda>(q, e). q \<noteq> [] \<and> butlast q = S) fs"
    have 1: "distinct (map fst ?ch)"
      using that by (rule distinct_map_filter)
    have 2: "ns = map last (map fst ?ch)"
      by (simp add: ns case_prod_beta comp_def)
    have 3: "inj_on last (set (map fst ?ch))"
      by (rule inj_onI) (auto, metis append_butlast_last_id)
    show ?thesis
      unfolding 2 using 1 3 distinct_map [of last "map fst ?ch"] by blast
  qed
qed


lemma not_below_self: "\<not> below D X D"
  by (simp add: below_def)

lemma below_insert: "below D (insert n X) q \<longleftrightarrow> below D X q \<or> (\<exists>r. q = D @ n # r)"
  by (auto simp: below_def)

lemma strict_prefix_snoc_iff: "strict_prefix (D @ [n]) q \<longleftrightarrow> (\<exists>r. r \<noteq> [] \<and> q = D @ n # r)"
  by (auto simp: strict_prefix_def prefix_def)

lemma exportDir_loop_inv:
  assumes ok: "walk_ok recurse"
    and par: "S \<parallel> D"
    and sdir: "os_path_isdir fs0 S"
    and ddir: "os_path_isdir fs0 D"
    and empty0: "\<And>r. r \<noteq> [] \<Longrightarrow> map_of fs0 (D @ r) = None"
    and nomd0: "nomd fs0 S"
  shows "loop_inv fs0 S D X fs \<Longrightarrow> distinct ns \<Longrightarrow> X \<inter> set ns = {}
    \<Longrightarrow> exportDir_loop recurse exporter S D ns fs = Inr fs'
    \<Longrightarrow> loop_inv fs0 S D (X \<union> set ns) fs'"
proof (induction ns arbitrary: fs X)
  case Nil
  then show ?case by simp
next
  case (Cons n ns)
  note inv = Cons.prems(1)
  have dist: "distinct (map fst fs)"
    and frame: "\<And>q. \<not> below D X q \<Longrightarrow> map_of fs q = map_of fs0 q"
    and proc: "\<And>m r. m \<in> X \<Longrightarrow>
        map_of fs (D @ m # r) = (if dirpath fs0 S (m # r) then Some Directory else None)"
    using inv by (auto simp: loop_inv_def)
  have nX: "n \<notin> X" and nns: "n \<notin> set ns" and dns: "distinct ns" and disj: "insert n X \<inter> set ns = {}"
    using Cons.prems(2,3) by auto
  have src: "map_of fs (S @ x) = map_of fs0 (S @ x)" for x
    by (rule frame) (rule parallel_not_below [OF par])
  have dst: "map_of fs D = Some Directory"
    using frame [OF not_below_self] ddir by (simp add: os_path_isdir_def)
  have fresh: "map_of fs (D @ n # r) = None" for r
  proof -
    have "\<not> below D X (D @ n # r)"
      using nX by (auto simp: below_def)
    then show ?thesis
      using frame empty0 [of "n # r"] by simp
  qed
  have union: "X \<union> set (n # ns) = insert n X \<union> set ns"
    by auto
  have nonempty: "n \<noteq> []"
  proof
    assume e: "n = []"
    have "os_path_isdir fs S"
      using src [of "[]"] sdir by (simp add: os_path_isdir_def)
    moreover have "os_mkdir fs D = Inl FileExistsError"
      using dst by (simp add: os_mkdir_def os_path_exists_def)
    ultimately show False
      using Cons.prems(4) e by (simp add: os_path_join_def str_def)
  qed
  show ?case
  proof (cases "os_path_isdir fs (S @ [n])")
    case False
    then have nd0: "\<not> os_path_isdir fs0 (S @ [n])"
      using src [of "[n]"] by (simp add: os_path_isdir_def)
    have inv': "loop_inv fs0 S D (insert n X) fs"
      unfolding loop_inv_def
    proof (intro conjI allI impI ballI)
      show "distinct (map fst fs)" by (rule dist)
    next
      fix q assume "\<not> below D (insert n X) q"
      then show "map_of fs q = map_of fs0 q"
        using frame by (simp add: below_insert)
    next
      fix m r assume "m \<in> insert n X"
      then show "map_of fs (D @ m # r) = (if dirpath fs0 S (m # r) then Some Directory else None)"
        using proc fresh nd0 by auto
    qed
    have "exportDir_loop recurse exporter S D ns fs = Inr fs'"
      using Cons.prems(4) False nonempty by (simp add: os_path_join_def)
    from Cons.IH [OF inv' dns disj this] show ?thesis
      by (simp only: union)
  next
    case True
    then have d0: "os_path_isdir fs0 (S @ [n])"
      using src [of "[n]"] by (simp add: os_path_isdir_def)
    have notmd: "n \<noteq> str ''Maildir''"
      using nomd0 d0 by (auto simp: nomd_def dest: spec [of _ "[n]"])
    from Cons.prems(4) True nonempty notmd
    obtain fs1 fs2 where mk: "os_mkdir fs (D @ [n]) = Inr fs1"
      and rc: "recurse (S @ [n]) (D @ [n]) fs1 = Inr fs2"
      and rest: "exportDir_loop recurse exporter S D ns fs2 = Inr fs'"
      by (auto simp: os_path_join_def Let_def split: sum.splits)
    have fs1: "fs1 = (D @ [n], Directory) # fs"
      using os_mkdir_Inr [OF mk] by simp
    have look1: "map_of fs1 q = (if q = D @ [n] then Some Directory else map_of fs q)" for q
      by (simp add: fs1)
    have src1: "map_of fs1 ((S @ [n]) @ x) = map_of fs0 ((S @ [n]) @ x)" for x
      using parallel_append_neq [OF par, of "n # x" "[n]"] src [of "n # x"]
      by (simp add: look1)
    have pre: "walk_pre fs1 (S @ [n]) (D @ [n])"
      unfolding walk_pre_def
    proof (intro conjI allI impI)
      show "distinct (map fst fs1)"
        using dist fresh [of "[]"] by (simp add: fs1 map_of_eq_None_iff)
      show "S @ [n] \<parallel> D @ [n]"
        using par by (rule parallel_append)
      show "os_path_isdir fs1 (S @ [n])"
        using src1 [of "[]"] d0 by (simp add: os_path_isdir_def)
      show "os_path_isdir fs1 (D @ [n])"
        by (simp add: os_path_isdir_def look1)
      show "map_of fs1 ((D @ [n]) @ r) = None" if "r \<noteq> []" for r
        using that fresh [of r] by (simp add: look1)
      show "nomd fs1 (S @ [n])"
        unfolding nomd_def
      proof (intro allI impI)
        fix r assume r: "r \<noteq> [] \<and> os_path_isdir fs1 ((S @ [n]) @ r)"
        then have "os_path_isdir fs0 (S @ (n # r))"
          using src1 [of r] by (simp add: os_path_isdir_def)
        then have "last (n # r) \<noteq> str ''Maildir''"
          using nomd0 by (auto simp: nomd_def dest: spec [of _ "n # r"])
        then show "last r \<noteq> str ''Maildir''"
          using r by simp
      qed
    qed
    have post: "walk_post fs1 fs2 (S @ [n]) (D @ [n])"
      using ok pre rc by (auto simp: walk_ok_def)
    have dist2: "distinct (map fst fs2)"
      and frame2: "\<And>q. \<not> strict_prefix (D @ [n]) q \<Longrightarrow> map_of fs2 q = map_of fs1 q"
      and mirr2: "\<And>r. r \<noteq> [] \<Longrightarrow> map_of fs2 ((D @ [n]) @ r) =
          (if dirpath fs1 (S @ [n]) r then Some Directory else None)"
      using post by (auto simp: walk_post_def)
    have dp: "dirpath fs1 (S @ [n]) r = dirpath fs0 (S @ [n]) r" for r
      by (rule dirpath_cong) (rule src1)
    have inv2: "loop_inv fs0 S D (insert n X) fs2"
      unfolding loop_inv_def
    proof (intro conjI allI impI ballI)
      show "distinct (map fst fs2)" by (rule dist2)
    next
      fix q assume nb: "\<not> below D (insert n X) q"
      then have 1: "\<not> strict_prefix (D @ [n]) q" and 2: "q \<noteq> D @ [n]" and 3: "\<not> below D X q"
        by (auto simp: below_insert strict_prefix_snoc_iff)
      show "map_of fs2 q = map_of fs0 q"
        using frame2 [OF 1] 2 frame [OF 3] by (simp add: look1)
    next
      fix m r assume m: "m \<in> insert n X"
      show "map_of fs2 (D @ m # r) = (if dirpath fs0 S (m # r) then Some Directory else None)"
      proof (cases "m = n")
        case True
        show ?thesis
        proof (cases "r = []")
          case True
          have "\<not> strict_prefix (D @ [n]) (D @ [n])" by simp
          from frame2 [OF this] show ?thesis
            using \<open>m = n\<close> True d0 by (simp add: look1)
        next
          case False
          from mirr2 [OF False] show ?thesis
            using \<open>m = n\<close> d0 by (simp add: dp)
        qed
      next
        case False
        then have mX: "m \<in> X" using m by simp
        have 1: "\<not> strict_prefix (D @ [n]) (D @ m # r)"
          using False by (auto simp: strict_prefix_snoc_iff)
        have 2: "D @ m # r \<noteq> D @ [n]"
          using False by simp
        show ?thesis
          using frame2 [OF 1] 2 False proc [OF mX, of r] by (simp add: look1)
      qed
    qed
    from Cons.IH [OF inv2 dns disj rest] show ?thesis
      by (simp only: union)
  qed
qed


lemma exportDir_walk_ok: "walk_ok (exportDir depth lib)"
proof (induction depth)
  case 0
  show ?case by (simp add: walk_ok_def)
next
  case (Suc depth)
  show ?case
    unfolding walk_ok_def
  proof (intro allI impI)
    fix S D fs fs'
    assume pre: "walk_pre fs S D" and run: "exportDir (Suc depth) lib S D fs = Inr fs'"
    from run obtain ns where ls: "os_listdir fs S = Inr ns"
      and loop: "exportDir_loop (exportDir depth lib) (export depth lib) S D ns fs = Inr fs'"
      by (auto split: sum.splits)
    have dist: "distinct (map fst fs)" and par: "S \<parallel> D"
      and sdir: "os_path_isdir fs S" and ddir: "os_path_isdir fs D"
      and empty: "\<And>r. r \<noteq> [] \<Longrightarrow> map_of fs (D @ r) = None" and nm: "nomd fs S"
      using pre by (auto simp: walk_pre_def)
    have inv0: "loop_inv fs S D {} fs"
      using dist by (simp add: loop_inv_def below_def)
    have dns: "distinct ns"
      by (rule os_listdir_Inr(3) [OF ls dist])
    have disj0: "{} \<inter> set ns = {}"
      by simp
    have "loop_inv fs S D ({} \<union> set ns) fs'"
      by (rule exportDir_loop_inv [OF Suc par sdir ddir empty nm inv0 dns disj0 loop])
    then have dist': "distinct (map fst fs')"
      and frame: "\<And>q. \<not> below D (set ns) q \<Longrightarrow> map_of fs' q = map_of fs q"
      and mirr: "\<And>n r. n \<in> set ns \<Longrightarrow>
          map_of fs' (D @ n # r) = (if dirpath fs S (n # r) then Some Directory else None)"
      by (auto simp: loop_inv_def)
    show "walk_post fs fs' S D"
      unfolding walk_post_def
    proof (intro conjI allI impI)
      show "distinct (map fst fs')" by (rule dist')
    next
      fix q assume "\<not> strict_prefix D q"
      then have "\<not> below D (set ns) q"
        by (auto simp: below_def strict_prefix_def)
      then show "map_of fs' q = map_of fs q" by (rule frame)
    next
      fix r :: path assume "r \<noteq> []"
      then obtain n r' where r: "r = n # r'" by (cases r) auto
      show "map_of fs' (D @ r) = (if dirpath fs S r then Some Directory else None)"
      proof (cases "n \<in> set ns")
        case True
        then show ?thesis using mirr r by simp
      next
        case False
        then have "\<not> below D (set ns) (D @ r)"
          by (auto simp: below_def r)
        then have 1: "map_of fs' (D @ r) = None"
          using frame empty [of r] r by simp
        have "S @ [n] \<notin> fst ` set fs"
          using False os_listdir_Inr(2) [OF ls] by simp
        then have "\<not> os_path_isdir fs (S @ [n])"
          by (simp add: os_path_isdir_def map_of_eq_None_iff [symmetric])
        then show ?thesis
          using 1 r by simp
      qed
    qed
  qed
qed

lemma wf_parent:
  assumes "wf_fs fs"
  shows "r \<noteq> [] \<Longrightarrow> map_of fs (p @ r) \<noteq> None \<Longrightarrow> os_path_isdir fs p"
proof (induction r rule: rev_induct)
  case Nil
  then show ?case by simp
next
  case (snoc x r)
  from snoc.prems(2) obtain e where "(p @ r @ [x], e) \<in> set fs"
    by (auto dest: map_of_SomeD)
  then have d: "os_path_isdir fs (p @ r)"
    using assms by (auto simp: wf_fs_def list_all_iff butlast_append)
  show ?case
  proof (cases "r = []")
    case True
    then show ?thesis using d by simp
  next
    case False
    then show ?thesis
      using snoc.IH d by (simp add: os_path_isdir_def)
  qed
qed

lemma wf_dirpath:
  assumes "wf_fs fs"
  shows "r \<noteq> [] \<Longrightarrow> dirpath fs S r = os_path_isdir fs (S @ r)"
proof (induction r arbitrary: S)
  case Nil
  then show ?case by simp
next
  case (Cons n r)
  show ?case
  proof (cases "r = []")
    case True
    then show ?thesis by simp
  next
    case False
    have "os_path_isdir fs (S @ n # r) \<Longrightarrow> os_path_isdir fs (S @ [n])"
      using wf_parent [OF assms False, of "S @ [n]"] by (simp add: os_path_isdir_def)
    then show ?thesis
      using Cons.IH [OF False, of "S @ [n]"] by auto
  qed
qed

lemma no_maildir_nomd:
  assumes "no_maildir fs S"
  shows "nomd fs S"
  unfolding nomd_def
proof (intro allI impI)
  fix r assume r: "r \<noteq> [] \<and> os_path_isdir fs (S @ r)"
  then have "(S @ r, Directory) \<in> set fs"
    by (auto simp: os_path_isdir_def dest: map_of_SomeD)
  then have "\<not> (strict_prefix S (S @ r) \<and> last (S @ r) = str ''Maildir'')"
    using assms by (auto simp: no_maildir_def list_all_iff)
  then show "last r \<noteq> str ''Maildir''"
    using r by (simp add: strict_prefix_def)
qed

lemma map_of_filter_key:
  "map_of (filter (\<lambda>(q, e). P q) fs) k = (if P k then map_of fs k else None)"
  by (induction fs) auto


lemma run_export_Inr:
  assumes "run_export depth lib S D fsx = Inr (v, fs')"
  shows "v = PyNone \<and> map_of fsx D = None
    \<and> exportDir depth lib S D ((D, Directory) # fsx) = Inr fs'"
  using assms os_mkdir_Inr [of fsx D]
  by (auto simp: run_export_def split: sum.splits)

lemma run_PyNone:
  assumes "run depth lib S Dst force fs = Inr (PyNone, fs')"
  obtains fsx where "os_path_isdir fs S"
    and "run_export depth lib S (os_path_join Dst (os_path_basename S)) fsx = Inr (PyNone, fs')"
    and "fsx = fs \<and> \<not> os_path_exists fs (os_path_join Dst (os_path_basename S))
         \<or> fsx = filter (\<lambda>(q, e). \<not> prefix (os_path_join Dst (os_path_basename S)) q) fs"
  using assms
  by (auto simp: run_def Let_def shutil_rmtree_def
      split: if_splits sum.splits option.splits entry.splits)

text \<open>
  Claim C8, as amended. The claim as stated fails when the destination directory
  \<open>dest/basename(source)\<close> is the source root itself and overwrite is requested: the
  source is deleted before it is walked. What holds: in a well-formed filesystem, for a
  source tree with no directory named \<open>Maildir\<close>, when the source root and
  \<open>dest/basename(source)\<close> do not overlap (neither path is a prefix of the other), a
  run that completes leaves under \<open>dest/basename(source)\<close> exactly the directories of
  the source tree and nothing else, changes nothing outside it, and creates no file.
\<close>

theorem run_mirrors_plain_tree:
  assumes wf: "wf_fs fs"
    and nm: "no_maildir fs srcPath"
    and par: "srcPath \<parallel> os_path_join dstPath (os_path_basename srcPath)"
    and run: "run depth lib srcPath dstPath force fs = Inr (PyNone, fs')"
  shows "(\<forall>r. map_of fs' (os_path_join dstPath (os_path_basename srcPath) @ r) =
            (if os_path_isdir fs (srcPath @ r) then Some Directory else None))
     \<and> (\<forall>q. \<not> prefix (os_path_join dstPath (os_path_basename srcPath)) q
            \<longrightarrow> map_of fs' q = map_of fs q)
     \<and> (\<forall>q content. map_of fs' q = Some (RegularFile content)
            \<longrightarrow> map_of fs q = Some (RegularFile content))"
proof -
  define D where "D = os_path_join dstPath (os_path_basename srcPath)"
  note par' = par [folded D_def]
  from run obtain fsx where sdir: "os_path_isdir fs srcPath"
    and rx: "run_export depth lib srcPath D fsx = Inr (PyNone, fs')"
    and fsx: "fsx = fs \<and> \<not> os_path_exists fs D \<or> fsx = filter (\<lambda>(q, e). \<not> prefix D q) fs"
    unfolding D_def by (rule run_PyNone)
  have dist: "distinct (map fst fs)"
    using wf by (simp add: wf_fs_def)
  have distx: "distinct (map fst fsx)"
    using fsx dist by (auto simp: distinct_map_filter)
  have lookx: "map_of fsx q = (if prefix D q then None else map_of fs q)" for q
  proof (cases "fsx = filter (\<lambda>(q, e). \<not> prefix D q) fs")
    case True
    then show ?thesis by (simp add: map_of_filter_key)
  next
    case False
    then have same: "fsx = fs" and none: "map_of fs D = None"
      using fsx by (auto simp: os_path_exists_def)
    have "map_of fs (D @ r) = None" for r
    proof (cases "r = []")
      case True
      then show ?thesis using none by simp
    next
      case False
      have "\<not> os_path_isdir fs D"
        using none by (simp add: os_path_isdir_def)
      then have "\<not> map_of fs (D @ r) \<noteq> None"
        using wf_parent [OF wf False, of D] by blast
      then show ?thesis by simp
    qed
    then show ?thesis
      by (auto simp: same prefix_def)
  qed
  define fsy where "fsy = (D, Directory) # fsx"
  have walk: "exportDir depth lib srcPath D fsy = Inr fs'" and freshD: "map_of fsx D = None"
    using run_export_Inr [OF rx] by (simp_all add: fsy_def)
  have looky: "map_of fsy q = (if q = D then Some Directory else map_of fsx q)" for q
    by (simp add: fsy_def)
  have srcy: "map_of fsy (srcPath @ x) = map_of fs (srcPath @ x)" for x
    using parallel_append_neq [OF par', of x] by (auto simp: looky lookx prefix_def)
  have pre: "walk_pre fsy srcPath D"
    unfolding walk_pre_def
  proof (intro conjI allI impI)
    show "distinct (map fst fsy)"
      using distx freshD by (simp add: fsy_def map_of_eq_None_iff)
    show "srcPath \<parallel> D" by (rule par')
    show "os_path_isdir fsy srcPath"
      using srcy [of "[]"] sdir by (simp add: os_path_isdir_def)
    show "os_path_isdir fsy D"
      by (simp add: os_path_isdir_def looky)
    show "map_of fsy (D @ r) = None" if "r \<noteq> []" for r
      using that by (simp add: looky lookx)
    show "nomd fsy srcPath"
      using no_maildir_nomd [OF nm] srcy by (simp add: nomd_def os_path_isdir_def)
  qed
  have post: "walk_post fsy fs' srcPath D"
    using exportDir_walk_ok [of depth lib] pre walk by (auto simp: walk_ok_def)
  have frame: "\<And>q. \<not> strict_prefix D q \<Longrightarrow> map_of fs' q = map_of fsy q"
    and mirr: "\<And>r. r \<noteq> [] \<Longrightarrow>
        map_of fs' (D @ r) = (if dirpath fsy srcPath r then Some Directory else None)"
    using post by (auto simp: walk_post_def)
  have dp: "dirpath fsy srcPath r = os_path_isdir fs (srcPath @ r)" if "r \<noteq> []" for r
  proof -
    have "dirpath fsy srcPath r = dirpath fs srcPath r"
      by (rule dirpath_cong) (rule srcy)
    then show ?thesis
      using wf_dirpath [OF wf that] by simp
  qed
  have 1: "map_of fs' (D @ r) = (if os_path_isdir fs (srcPath @ r) then Some Directory else None)"
    for r
  proof (cases "r = []")
    case True
    have "\<not> strict_prefix D D" by simp
    from frame [OF this] show ?thesis
      using True sdir by (simp add: looky)
  next
    case False
    then show ?thesis
      using mirr [OF False] dp [OF False] by simp
  qed
  have 2: "map_of fs' q = map_of fs q" if "\<not> prefix D q" for q
  proof -
    have "\<not> strict_prefix D q" and "q \<noteq> D"
      using that by (auto simp: strict_prefix_def)
    then show ?thesis
      using frame [of q] that by (simp add: looky lookx)
  qed
  have 3: "map_of fs q = Some (RegularFile content)"
    if "map_of fs' q = Some (RegularFile content)" for q content
  proof (cases "prefix D q")
    case True
    then obtain r where "q = D @ r" by (auto simp: prefix_def)
    then show ?thesis
      using 1 [of r] that by (simp split: if_splits)
  next
    case False
    then show ?thesis using 2 that by simp
  qed
  show ?thesis
    unfolding D_def [symmetric] using 1 2 3 by blast
qed

theorem run_mirrors_plain_tree_witness:
  "run 1000 sample_lib [str ''src''] [str ''dst''] False fs_plain =
     Inr (PyNone,
          ([str ''dst'', str ''src'', str ''a'', str ''b''], Directory)
          # ([str ''dst'', str ''src'', str ''a''], Directory)
          # ([str ''dst'', str ''src''], Directory) # fs_plain)
   \<and> map_of (([str ''dst'', str ''src'', str ''a'', str ''b''], Directory)
          # ([str ''dst'', str ''src'', str ''a''], Directory)
          # ([str ''dst'', str ''src''], Directory) # fs_plain)
        ([str ''dst'', str ''src''] @ [str ''a'', str ''b'']) = Some Directory
   \<and> map_of (([str ''dst'', str ''src'', str ''a'', str ''b''], Directory)
          # ([str ''dst'', str ''src'', str ''a''], Directory)
          # ([str ''dst'', str ''src''], Directory) # fs_plain)
        ([str ''dst'', str ''src''] @ [str ''notes.txt'']) = None
   \<and> map_of (([str ''dst'', str ''src'', str ''a'', str ''b''], Directory)
          # ([str ''dst'', str ''src'', str ''a''], Directory)
          # ([str ''dst'', str ''src''], Directory) # fs_plain)
        [str ''src'', str ''notes.txt''] = map_of fs_plain [str ''src'', str ''notes.txt'']"
proof -
  let ?out = "([str ''dst'', str ''src'', str ''a'', str ''b''], Directory)
          # ([str ''dst'', str ''src'', str ''a''], Directory)
          # ([str ''dst'', str ''src''], Directory) # fs_plain"
  have wf: "wf_fs fs_plain"
    by code_simp
  have nm: "no_maildir fs_plain [str ''src'']"
    by code_simp
  have par: "[str ''src''] \<parallel> os_path_join [str ''dst''] (os_path_basename [str ''src''])"
    by code_simp
  have e: "run 1000 sample_lib [str ''src''] [str ''dst''] False fs_plain = Inr (PyNone, ?out)"
    by code_simp
  have j: "os_path_join [str ''dst''] (os_path_basename [str ''src'']) = [str ''dst'', str ''src'']"
    by code_simp
  note t = run_mirrors_plain_tree [OF wf nm par e, unfolded j]
  have d: "os_path_isdir fs_plain ([str ''src''] @ [str ''a'', str ''b''])"
    by code_simp
  have f: "\<not> os_path_isdir fs_plain ([str ''src''] @ [str ''notes.txt''])"
    by code_simp
  have p: "\<not> prefix [str ''dst'', str ''src''] [str ''src'', str ''notes.txt'']"
    by code_simp
  have 1: "map_of ?out ([str ''dst'', str ''src''] @ [str ''a'', str ''b'']) = Some Directory"
    using t d by presburger
  have 2: "map_of ?out ([str ''dst'', str ''src''] @ [str ''notes.txt'']) = None"
    using t f by presburger
  have 3: "map_of ?out [str ''src'', str ''notes.txt''] = map_of fs_plain [str ''src'', str ''notes.txt'']"
    using t p by blast
  show ?thesis
    using e 1 2 3 by blast
qed

text \<open>
  The counterexample to claim C8 as stated: the source \<open>/x/y\<close> holds the directory
  \<open>z\<close> and no \<open>Maildir\<close>; exported into \<open>/x\<close> with overwrite, the run completes and
  the destination \<open>/x/y\<close> has no directory \<open>z\<close>.
\<close>

theorem run_mirror_counterexample:
  "wf_fs fs_nested
   \<and> no_maildir fs_nested [str ''x'', str ''y'']
   \<and> os_path_isdir fs_nested ([str ''x'', str ''y''] @ [str ''z''])
   \<and> os_path_join [str ''x''] (os_path_basename [str ''x'', str ''y'']) = [str ''x'', str ''y'']
   \<and> run 1000 sample_lib [str ''x'', str ''y''] [str ''x''] True fs_nested =
        Inr (PyNone, [([str ''x'', str ''y''], Directory), ([], Directory), ([str ''x''], Directory)])
   \<and> map_of [([str ''x'', str ''y''], Directory), ([], Directory), ([str ''x''], Directory)]
        ([str ''x'', str ''y''] @ [str ''z'']) = None"
  by code_simp

section \<open>Main.run: proofs\<close>

text \<open>
  Claim C7. When \<open>dest/basename(source)\<close> exists: without overwrite the run returns
  \<open>False\<close> and the filesystem is unchanged; with overwrite (the roots being
  directories, the source having a base name and the existing destination being a
  directory), the directory and everything beneath it are removed, then the directory
  is created anew, empty, and the walk runs on that filesystem.
\<close>

theorem run_destination_exists:
  assumes "os_path_exists fs (os_path_join dstPath (os_path_basename srcPath))"
  shows "(\<not> force \<longrightarrow> run depth lib srcPath dstPath force fs = Inr (PyBool False, fs))
    \<and> (force \<and> os_path_isdir fs srcPath \<and> os_path_isdir fs dstPath
         \<and> os_path_basename srcPath \<noteq> []
         \<and> os_path_isdir fs (os_path_join dstPath (os_path_basename srcPath))
       \<longrightarrow> (let dstDir = os_path_join dstPath (os_path_basename srcPath);
                 fs1 = filter (\<lambda>(q, e). \<not> prefix dstDir q) fs;
                 fs2 = (dstDir, Directory) # fs1
             in shutil_rmtree fs dstDir = Inr fs1
                \<and> (\<forall>q. map_of fs1 q = (if prefix dstDir q then None else map_of fs q))
                \<and> os_mkdir fs1 dstDir = Inr fs2
                \<and> run depth lib srcPath dstPath force fs =
                    (case exportDir depth lib srcPath dstDir fs2 of
                       Inl e \<Rightarrow> Inl e
                     | Inr fs3 \<Rightarrow> Inr (PyNone, fs3))))"
proof (intro conjI impI)
  assume "\<not> force"
  with assms show "run depth lib srcPath dstPath force fs = Inr (PyBool False, fs)"
    by (simp add: run_def Let_def)
next
  assume a: "force \<and> os_path_isdir fs srcPath \<and> os_path_isdir fs dstPath
         \<and> os_path_basename srcPath \<noteq> []
         \<and> os_path_isdir fs (os_path_join dstPath (os_path_basename srcPath))"
  define dstDir where "dstDir = os_path_join dstPath (os_path_basename srcPath)"
  define fs1 where "fs1 = filter (\<lambda>(q, e). \<not> prefix dstDir q) fs"
  have dd: "dstDir = dstPath @ [os_path_basename srcPath]"
    using a by (simp add: dstDir_def os_path_join_def)
  have rm: "shutil_rmtree fs dstDir = Inr fs1"
    using a by (simp add: shutil_rmtree_def os_path_isdir_def dstDir_def fs1_def)
  have look: "map_of fs1 q = (if prefix dstDir q then None else map_of fs q)" for q
    by (simp add: fs1_def map_of_filter_key)
  have "\<not> prefix dstDir dstPath"
    by (simp add: dd prefix_def)
  then have "os_path_isdir fs1 dstPath"
    using a by (simp add: os_path_isdir_def look)
  then have mk: "os_mkdir fs1 dstDir = Inr ((dstDir, Directory) # fs1)"
    by (simp add: os_mkdir_def os_path_exists_def look dd os_path_isdir_def)
  have "run depth lib srcPath dstPath force fs =
          (case exportDir depth lib srcPath dstDir ((dstDir, Directory) # fs1) of
             Inl e \<Rightarrow> Inl e
           | Inr fs3 \<Rightarrow> Inr (PyNone, fs3))"
    using a assms rm mk by (simp add: run_def run_export_def Let_def dstDir_def [symmetric])
  with rm look mk
  show "let dstDir = os_path_join dstPath (os_path_basename srcPath);
                 fs1 = filter (\<lambda>(q, e). \<not> prefix dstDir q) fs;
                 fs2 = (dstDir, Directory) # fs1
             in shutil_rmtree fs dstDir = Inr fs1
                \<and> (\<forall>q. map_of fs1 q = (if prefix dstDir q then None else map_of fs q))
                \<and> os_mkdir fs1 dstDir = Inr fs2
                \<and> run depth lib srcPath dstPath force fs =
                    (case exportDir depth lib srcPath dstDir fs2 of
                       Inl e \<Rightarrow> Inl e
                     | Inr fs3 \<Rightarrow> Inr (PyNone, fs3))"
    unfolding Let_def dstDir_def [symmetric] fs1_def [symmetric] by blast
qed


theorem run_destination_exists_witness:
  "run 1000 sample_lib [str ''src''] [str ''dst''] False fs_existing = Inr (PyBool False, fs_existing)
   \<and> shutil_rmtree fs_existing [str ''dst'', str ''src''] =
       Inr [([], Directory), ([str ''src''], Directory), ([str ''src'', str ''a''], Directory),
            ([str ''dst''], Directory)]
   \<and> run 1000 sample_lib [str ''src''] [str ''dst''] True fs_existing =
       Inr (PyNone,
            [([str ''dst'', str ''src'', str ''a''], Directory),
             ([str ''dst'', str ''src''], Directory),
             ([], Directory), ([str ''src''], Directory), ([str ''src'', str ''a''], Directory),
             ([str ''dst''], Directory)])"
proof -
  have x: "os_path_exists fs_existing (os_path_join [str ''dst''] (os_path_basename [str ''src'']))"
    by code_simp
  have h: "True \<and> os_path_isdir fs_existing [str ''src''] \<and> os_path_isdir fs_existing [str ''dst'']
         \<and> os_path_basename [str ''src''] \<noteq> []
         \<and> os_path_isdir fs_existing (os_path_join [str ''dst''] (os_path_basename [str ''src'']))"
    by code_simp
  have j: "os_path_join [str ''dst''] (os_path_basename [str ''src'']) = [str ''dst'', str ''src'']"
    by code_simp
  have c: "filter (\<lambda>(q, e). \<not> prefix [str ''dst'', str ''src''] q) fs_existing =
      [([], Directory), ([str ''src''], Directory), ([str ''src'', str ''a''], Directory),
       ([str ''dst''], Directory)]"
    by code_simp
  have 1: "run 1000 sample_lib [str ''src''] [str ''dst''] False fs_existing = Inr (PyBool False, fs_existing)"
    using run_destination_exists [OF x, of False 1000 sample_lib] by simp
  have 2: "shutil_rmtree fs_existing [str ''dst'', str ''src''] =
       Inr [([], Directory), ([str ''src''], Directory), ([str ''src'', str ''a''], Directory),
            ([str ''dst''], Directory)]"
    using run_destination_exists [OF x, of True 1000 sample_lib] h
    unfolding Let_def j c by blast
  have 3: "run 1000 sample_lib [str ''src''] [str ''dst''] True fs_existing =
       Inr (PyNone,
            [([str ''dst'', str ''src'', str ''a''], Directory),
             ([str ''dst'', str ''src''], Directory),
             ([], Directory), ([str ''src''], Directory), ([str ''src'', str ''a''], Directory),
             ([str ''dst''], Directory)])"
    by code_simp
  show ?thesis
    using 1 2 3 by blast
qed

text \<open>The three failures of \<open>run\<close> return \<open>False\<close> and leave the filesystem as it is.\<close>

lemma run_returns_False:
  assumes "\<not> os_path_isdir fs srcPath \<or> \<not> os_path_isdir fs dstPath
    \<or> (os_path_exists fs (os_path_join dstPath (os_path_basename srcPath)) \<and> \<not> force)"
  shows "run depth lib srcPath dstPath force fs = Inr (PyBool False, fs)"
  using assms by (auto simp: run_def Let_def)

text \<open>
  Claim C1. The docstring of \<open>run\<close> promises \<open>True\<close> on success; the code ends
  without a \<open>return\<close>, so a run that completes returns \<open>None\<close>, which is false: no
  run returns a true value.
\<close>

theorem run_never_returns_True:
  "run depth lib srcPath dstPath force fs = Inr (v, fs') \<Longrightarrow> v \<noteq> PyBool True \<and> \<not> truthy v"
  by (auto simp: run_def run_export_def truthy_def Let_def split: if_splits sum.splits)

theorem run_never_returns_True_witness:
  "run 1000 sample_lib [str ''src''] [str ''dst''] False fs_plain =
     Inr (PyNone,
          ([str ''dst'', str ''src'', str ''a'', str ''b''], Directory)
          # ([str ''dst'', str ''src'', str ''a''], Directory)
          # ([str ''dst'', str ''src''], Directory) # fs_plain)
   \<and> PyNone \<noteq> PyBool True \<and> \<not> truthy PyNone"
proof -
  have e: "run 1000 sample_lib [str ''src''] [str ''dst''] False fs_plain =
     Inr (PyNone,
          ([str ''dst'', str ''src'', str ''a'', str ''b''], Directory)
          # ([str ''dst'', str ''src'', str ''a''], Directory)
          # ([str ''dst'', str ''src''], Directory) # fs_plain)"
    by code_simp
  show ?thesis
    using e run_never_returns_True [OF e] by blast
qed

end
